theory Spec2Isabelle
  imports Main "HOL-Library.Char_ord" "HOL-Library.Log_Nat" "HOL-Library.AList"
begin

section \<open>Host functions\<close>

text \<open>
  The program is TypeScript.  Its strings are modelled as \<^typ>\<open>string\<close>, one \<^typ>\<open>char\<close>
  per code unit, which covers the code units 0 to 255; every character the lexer accepts is
  ASCII.  The numbers of the host are IEEE-754 doubles.  The result of \<open>toInt\<close> is a finite
  integral double; it is modelled as the \<^typ>\<open>int\<close> of that value, and so are the fields
  of the syntax tree that hold such a result unchanged.  The fields of a duration hold sums
  of such numbers, computed by the addition of the host, which rounds and may overflow to
  infinity; they are modelled as values of the type \<open>jsnum\<close> below.
\<close>

subsection \<open>Numbers of the host\<close>

datatype jsnum = NaN | PosInfinity | NegInfinity | Finite rat

text \<open>
  Modelled from the ECMAScript specification (the host function is not part of the
  repository): rounding of a mathematical value to the nearest IEEE-754 binary64 value,
  ties to even, overflowing to an infinity.  The two zeros are identified.
\<close>

definition floor_log2 :: "rat \<Rightarrow> int" where
  "floor_log2 a =
     (case quotient_of a of (n, d) \<Rightarrow>
        let k = bitlen n - bitlen d in if 2 powi k \<le> a then k else k - 1)"

definition round_half_even :: "rat \<Rightarrow> int" where
  "round_half_even q =
     (let f = \<lfloor>q\<rfloor>; r = q - of_int f
      in if r < 1 / 2 then f else if 1 / 2 < r then f + 1 else if even f then f else f + 1)"

definition to_double :: "rat \<Rightarrow> jsnum" where
  "to_double q =
     (if q = 0 then Finite 0
      else let a = \<bar>q\<bar>;
               e = max (floor_log2 a - 52) (- 1074);
               m = round_half_even (a / 2 powi e);
               v = of_int m * 2 powi e
           in if 2 ^ 1024 \<le> v then (if q < 0 then NegInfinity else PosInfinity)
              else Finite (if q < 0 then - v else v))"

text \<open>The addition of the host, \<open>x + y\<close> on two numbers.\<close>

fun js_add :: "jsnum \<Rightarrow> jsnum \<Rightarrow> jsnum" where
  "js_add (Finite x) (Finite y) = to_double (x + y)"
| "js_add NaN _ = NaN"
| "js_add _ NaN = NaN"
| "js_add PosInfinity NegInfinity = NaN"
| "js_add NegInfinity PosInfinity = NaN"
| "js_add PosInfinity _ = PosInfinity"
| "js_add _ PosInfinity = PosInfinity"
| "js_add NegInfinity _ = NegInfinity"
| "js_add _ NegInfinity = NegInfinity"

subsection \<open>Character classes\<close>

text \<open>\<open>isDigit\<close>: \<^verbatim>\<open>c >= '0' && c <= '9'\<close>.\<close>

definition isDigit :: "char \<Rightarrow> bool" where
  "isDigit c = (CHR ''0'' \<le> c \<and> c \<le> CHR ''9'')"

text \<open>\<open>isAlpha\<close>: \<^verbatim>\<open>(c >= 'A' && c <= 'Z') || (c >= 'a' && c <= 'z')\<close>.\<close>

definition isAlpha :: "char \<Rightarrow> bool" where
  "isAlpha c = ((CHR ''A'' \<le> c \<and> c \<le> CHR ''Z'') \<or> (CHR ''a'' \<le> c \<and> c \<le> CHR ''z''))"

definition isBracketWordChar :: "char \<Rightarrow> bool" where
  "isBracketWordChar c =
     (isAlpha c \<or> isDigit c \<or> c = CHR ''-'' \<or> c = CHR ''/'' \<or> c = CHR ''+'' \<or> c = CHR ''.'')"

text \<open>
  White space of the host (the regular expression \<^verbatim>\<open>\s\<close>, and the characters that
  \<open>trim\<close> and \<open>Number\<close> strip), among the code units 0 to 255: TAB, LF, VT, FF, CR, SP, NBSP.
\<close>

definition isWhiteSpace :: "char \<Rightarrow> bool" where
  "isWhiteSpace c =
     (let n = (of_char c :: nat) in n = 9 \<or> n = 10 \<or> n = 11 \<or> n = 12 \<or> n = 13 \<or> n = 32 \<or> n = 160)"

subsection \<open>String methods of the host\<close>

definition trim :: "string \<Rightarrow> string" where
  "trim s = rev (dropWhile isWhiteSpace (rev (dropWhile isWhiteSpace s)))"

text \<open>\<open>s.split(c)\<close> for a one-character separator; the result is never empty.\<close>

fun split :: "char \<Rightarrow> string \<Rightarrow> string list" where
  "split c [] = [[]]"
| "split c (x # xs) =
     (if x = c then [] # split c xs
      else (let ps = split c xs in (x # hd ps) # tl ps))"

text \<open>\<open>s.indexOf(c)\<close>: \<open>None\<close> stands for the result \<open>-1\<close>.\<close>

fun indexOf :: "string \<Rightarrow> char \<Rightarrow> nat option" where
  "indexOf [] c = None"
| "indexOf (x # xs) c = (if x = c then Some 0 else map_option Suc (indexOf xs c))"

definition startsWith :: "string \<Rightarrow> string \<Rightarrow> bool" where
  "startsWith s pre = (take (length pre) s = pre)"

definition padStart :: "nat \<Rightarrow> char \<Rightarrow> string \<Rightarrow> string" where
  "padStart n c s = replicate (n - length s) c @ s"

subsection \<open>Conversion of a number to a string\<close>

text \<open>
  Modelled from the ECMAScript specification, \<open>Number::toString\<close> with radix 10: the
  conversion behind \<open>n.toString()\<close>, \<open>String(n)\<close> and a number in a template literal.
  \<open>digits_of\<close> is the decimal expansion of a natural number.
\<close>

definition digit_char :: "int \<Rightarrow> char" where
  "digit_char d = char_of (48 + d)"

function digits_of :: "int \<Rightarrow> string" where
  "digits_of n = (if n < 10 then [digit_char n] else digits_of (n div 10) @ [digit_char (n mod 10)])"
  by pat_completeness auto
termination
  by (relation "measure nat") auto

declare digits_of.simps [simp del]

text \<open>
  For a positive number \<open>x\<close> the specification takes integers \<open>n\<close>, \<open>k\<close> and \<open>s\<close> with \<open>k\<close>
  at least 1 and as small as possible, \<open>s\<close> of exactly \<open>k\<close> decimal digits, and
  \<open>s * 10^(n - k)\<close> a value that is rounded to \<open>x\<close>; among several such \<open>s\<close> the one whose
  value is closest to \<open>x\<close>, and the even one of two equally close.  \<open>decimalExponent x\<close> is
  the number of digits before the decimal point of \<open>x\<close> (zero or negative below 1), up to
  an error of one, which the search over three values of \<open>n\<close> absorbs.  Seventeen digits
  always suffice for a double.
\<close>

definition decimalExponent :: "rat \<Rightarrow> int" where
  "decimalExponent x =
     (if 1 \<le> x then int (length (digits_of \<lfloor>x\<rfloor>))
      else 1 - int (length (digits_of \<lfloor>1 / x\<rfloor>)))"

definition digitCandidates :: "rat \<Rightarrow> nat \<Rightarrow> (int \<times> int) list" where
  "digitCandidates x k =
     concat (map (\<lambda>n.
       (let f = \<lfloor>x / 10 powi (n - int k)\<rfloor>
        in filter (\<lambda>(s, n). 10 ^ (k - 1) \<le> s \<and> s < 10 ^ k
                     \<and> to_double (of_int s * 10 powi (n - int k)) = Finite x)
             [(f, n), (f + 1, n)]))
       [decimalExponent x, decimalExponent x + 1, decimalExponent x + 2])"

definition closer :: "rat \<Rightarrow> nat \<Rightarrow> int \<times> int \<Rightarrow> int \<times> int \<Rightarrow> int \<times> int" where
  "closer x k a b =
     (let da = \<bar>of_int (fst a) * 10 powi (snd a - int k) - x\<bar>;
          db = \<bar>of_int (fst b) * 10 powi (snd b - int k) - x\<bar>
      in if db < da \<or> (db = da \<and> even (fst b)) then b else a)"

definition shortestDigits :: "rat \<Rightarrow> int \<times> int" where
  "shortestDigits x =
     (case filter (\<lambda>(k, cs). cs \<noteq> []) (map (\<lambda>k. (k, digitCandidates x k)) [1..<18]) of
        [] \<Rightarrow> (0, 0)
      | (k, cs) # _ \<Rightarrow> foldl (closer x k) (hd cs) (tl cs))"

text \<open>The layout of the digits \<open>ds\<close> of \<open>s\<close> for the exponent \<open>n\<close>.\<close>

definition formatDigits :: "string \<Rightarrow> int \<Rightarrow> string" where
  "formatDigits ds n =
     (let k = int (length ds)
      in if k \<le> n \<and> n \<le> 21 then ds @ replicate (nat (n - k)) CHR ''0''
         else if 0 < n \<and> n \<le> 21 then take (nat n) ds @ ''.'' @ drop (nat n) ds
         else if - 6 < n \<and> n \<le> 0 then ''0.'' @ replicate (nat (- n)) CHR ''0'' @ ds
         else (let e = n - 1;
                   es = (if e < 0 then CHR ''-'' else CHR ''+'') # digits_of \<bar>e\<bar>
               in if k = 1 then ds @ ''e'' @ es
                  else hd ds # ''.'' @ tl ds @ ''e'' @ es))"

text \<open>
  Every integer below \<open>2^53\<close> is a double, and no other decimal text of at most as many
  digits is rounded to it: its shortest digits are its own decimal expansion without the
  trailing zeros, which the layout puts back.  The first branch states this result
  directly.
\<close>

definition positiveToString :: "rat \<Rightarrow> string" where
  "positiveToString x =
     (if of_int \<lfloor>x\<rfloor> = x \<and> x < 2 ^ 53 then digits_of \<lfloor>x\<rfloor>
      else (case shortestDigits x of (s, n) \<Rightarrow> formatDigits (digits_of s) n))"

definition numberToString :: "jsnum \<Rightarrow> string" where
  "numberToString v =
     (case v of
        NaN \<Rightarrow> ''NaN''
      | PosInfinity \<Rightarrow> ''Infinity''
      | NegInfinity \<Rightarrow> ''-Infinity''
      | Finite x \<Rightarrow>
          if x = 0 then ''0''
          else if x < 0 then CHR ''-'' # positiveToString (- x)
          else positiveToString x)"

text \<open>\<open>toString\<close> on a number that the model holds as an \<^typ>\<open>int\<close>.\<close>

definition toString :: "int \<Rightarrow> string" where
  "toString n = numberToString (to_double (of_int n))"

subsection \<open>Conversion of a string to a number\<close>

text \<open>
  Modelled from the ECMAScript specification, \<open>StringToNumber\<close>: the host function
  \<open>Number\<close> applied to a string.  White space is trimmed; the empty string is \<open>0\<close>; the text
  must then be, as a whole, a signed decimal literal (\<open>Infinity\<close>, digits with an optional
  fraction and an optional exponent) or an unsigned binary, octal or hexadecimal integer
  literal; anything else is \<open>NaN\<close>.
\<close>

definition digit_val :: "char \<Rightarrow> int" where
  "digit_val c =
     (if isDigit c then of_char c - 48
      else if CHR ''a'' \<le> c \<and> c \<le> CHR ''z'' then of_char c - 87
      else of_char c - 55)"

definition radix_val :: "int \<Rightarrow> string \<Rightarrow> int" where
  "radix_val b ds = foldl (\<lambda>n c. b * n + digit_val c) 0 ds"

definition isRadixDigit :: "int \<Rightarrow> char \<Rightarrow> bool" where
  "isRadixDigit b c =
     ((isDigit c \<or> (CHR ''a'' \<le> c \<and> c \<le> CHR ''f'') \<or> (CHR ''A'' \<le> c \<and> c \<le> CHR ''F''))
      \<and> digit_val c < b)"

definition NonDecimalIntegerLiteral :: "string \<Rightarrow> int option" where
  "NonDecimalIntegerLiteral s =
     (case s of
        z # x # ds \<Rightarrow>
          (if z = CHR ''0'' \<and> ds \<noteq> [] then
             (let b = (if x = CHR ''x'' \<or> x = CHR ''X'' then 16
                       else if x = CHR ''o'' \<or> x = CHR ''O'' then 8
                       else if x = CHR ''b'' \<or> x = CHR ''B'' then 2 else (0::int))
              in if b \<noteq> 0 \<and> list_all (isRadixDigit b) ds then Some (radix_val b ds) else None)
           else None)
      | _ \<Rightarrow> None)"

text \<open>The exponent part: empty, or \<open>e\<close>/\<open>E\<close>, an optional sign, and at least one digit.\<close>

definition ExponentPart :: "string \<Rightarrow> int option" where
  "ExponentPart r =
     (case r of
        [] \<Rightarrow> Some 0
      | c # r' \<Rightarrow>
          (if c = CHR ''e'' \<or> c = CHR ''E'' then
             (let neg = (r' \<noteq> [] \<and> hd r' = CHR ''-'');
                  ds = (if r' \<noteq> [] \<and> (hd r' = CHR ''-'' \<or> hd r' = CHR ''+'') then tl r' else r')
              in if ds \<noteq> [] \<and> list_all isDigit ds
                 then Some (if neg then - radix_val 10 ds else radix_val 10 ds)
                 else None)
           else None))"

definition StrUnsignedDecimalLiteral :: "string \<Rightarrow> rat option" where
  "StrUnsignedDecimalLiteral s =
     (let ip = takeWhile isDigit s;
          r1 = dropWhile isDigit s;
          hasDot = (r1 \<noteq> [] \<and> hd r1 = CHR ''.'');
          fp = (if hasDot then takeWhile isDigit (tl r1) else []);
          r2 = (if hasDot then dropWhile isDigit (tl r1) else r1)
      in if ip = [] \<and> fp = [] then None
         else (case ExponentPart r2 of
                 None \<Rightarrow> None
               | Some e \<Rightarrow>
                   Some ((of_int (radix_val 10 ip) + of_int (radix_val 10 fp) / 10 ^ length fp)
                         * 10 powi e)))"

definition StrDecimalLiteral :: "string \<Rightarrow> jsnum" where
  "StrDecimalLiteral s =
     (let neg = (s \<noteq> [] \<and> hd s = CHR ''-'');
          u = (if s \<noteq> [] \<and> (hd s = CHR ''-'' \<or> hd s = CHR ''+'') then tl s else s)
      in if u = ''Infinity'' then (if neg then NegInfinity else PosInfinity)
         else (case StrUnsignedDecimalLiteral u of
                 None \<Rightarrow> NaN
               | Some v \<Rightarrow> to_double (if neg then - v else v)))"

definition Number_of_string :: "string \<Rightarrow> jsnum" where
  "Number_of_string s =
     (let t = trim s
      in if t = [] then Finite 0
         else (case NonDecimalIntegerLiteral t of
                 Some n \<Rightarrow> to_double (of_int n)
               | None \<Rightarrow> StrDecimalLiteral t))"

section \<open>Errors\<close>

datatype LexErrorKind =
    UnexpectedCharacter char
  | UnexpectedCharacterInsideBrackets char
  | UnterminatedBracketAnnotation

text \<open>The token types of the lexer and of the offset combiner.\<close>

datatype TokType =
    Number | Ident
  | Dash | Colon | Dot | Plus | Slash | Comma | Equals | Underscore | Exclamation
  | T | Z
  | LBracket | RBracket
  | BracketText
  | EOF

datatype CombinedTokType = TZOffset

datatype AnyTokType = Tok TokType | Comb CombinedTokType

text \<open>
  One constructor for each message the program builds, carrying the values the message
  interpolates.
\<close>

datatype ParseErrorKind =
    Expected AnyTokType AnyTokType
  | ExpectedAValue
  | UnterminatedBracketGroup
  | DurationMustStartWithP
  | InvalidDurationUnitInDatePart string
  | InvalidDurationUnitInTimePart string
  | InvalidInteger string string
  | OffsetStringCannotBeEmpty
  | OffsetMustStartWithSign char
  | OffsetSignMustBeFollowedByDigits
  | InvalidOffsetFormatExpectedHHMM string
  | InvalidOffsetFormat string
  | OffsetHoursMustBe int
  | OffsetMinutesMustBe int

text \<open>
  \<open>LexError\<close> and \<open>ParseError\<close> are the two exception classes of the program, each with its
  position.  \<open>HostTypeError\<close> is the host's exception for a property read on \<open>undefined\<close>;
  \<open>NonTermination\<close> is the outcome of a loop of the parser that never leaves its last token.
\<close>

datatype error =
    LexError LexErrorKind nat
  | ParseError ParseErrorKind nat
  | HostTypeError
  | NonTermination

definition and_then :: "error + 'a \<Rightarrow> ('a \<Rightarrow> error + 'b) \<Rightarrow> error + 'b" where
  "and_then m f = (case m of Inl e \<Rightarrow> Inl e | Inr x \<Rightarrow> f x)"

section \<open>toInt\<close>

definition toInt :: "string \<Rightarrow> string \<Rightarrow> nat \<Rightarrow> error + int" where
  "toInt s label position =
     (case Number_of_string s of
        Finite n \<Rightarrow>
          if of_int \<lfloor>n\<rfloor> = n then Inr \<lfloor>n\<rfloor>
          else Inl (ParseError (InvalidInteger label s) position)
      | _ \<Rightarrow> Inl (ParseError (InvalidInteger label s) position))"

section \<open>The abstract syntax\<close>

datatype OffsetSign = PlusSign | MinusSign

fun sign_char :: "OffsetSign \<Rightarrow> char" where
  "sign_char PlusSign = CHR ''+''"
| "sign_char MinusSign = CHR ''-''"

datatype OffsetAst =
    UtcOffset
  | NumericOffset (off_sign: OffsetSign) (off_hours: int) (off_minutes: int) (off_raw: string)

section \<open>parseOffset\<close>

definition MAX_OFFSET_HOURS :: int where
  "MAX_OFFSET_HOURS = 14"

definition MAX_MINUTES :: int where
  "MAX_MINUTES = 59"

text \<open>
  The assignment of \<open>hours\<close> and \<open>minutes\<close> in \<open>parseOffset\<close>: the three shapes of the text
  after the sign.
\<close>

definition offsetComponents :: "string \<Rightarrow> string \<Rightarrow> nat \<Rightarrow> error + (int \<times> int)" where
  "offsetComponents raw rest position =
     (if CHR '':'' \<in> set rest then
        (let parts = split CHR '':'' rest in
         if length parts \<noteq> 2 then
           Inl (ParseError (InvalidOffsetFormatExpectedHHMM raw) position)
         else
           and_then (toInt (parts ! 0) ''offset hours'' position) (\<lambda>hours.
           and_then (toInt (parts ! 1) ''offset minutes'' position) (\<lambda>minutes.
           Inr (hours, minutes))))
      else if length rest = 4 then
        and_then (toInt (take 2 rest) ''offset hours'' position) (\<lambda>hours.
        and_then (toInt (take 2 (drop 2 rest)) ''offset minutes'' position) (\<lambda>minutes.
        Inr (hours, minutes)))
      else if length rest = 2 then
        and_then (toInt rest ''offset hours'' position) (\<lambda>hours. Inr (hours, 0))
      else Inl (ParseError (InvalidOffsetFormat raw) position))"

definition parseOffset :: "string \<Rightarrow> nat \<Rightarrow> error + OffsetAst" where
  "parseOffset offsetString position =
     (if length offsetString = 0 then Inl (ParseError OffsetStringCannotBeEmpty position)
      else let raw = offsetString; sign = hd raw in
      if sign \<noteq> CHR ''+'' \<and> sign \<noteq> CHR ''-'' then
        Inl (ParseError (OffsetMustStartWithSign sign) position)
      else let validSign = (if sign = CHR ''+'' then PlusSign else MinusSign); rest = tl raw in
      if length rest = 0 then Inl (ParseError OffsetSignMustBeFollowedByDigits position)
      else
        and_then (offsetComponents raw rest position) (\<lambda>(hours, minutes).
          if hours < 0 \<or> hours > MAX_OFFSET_HOURS then
            Inl (ParseError (OffsetHoursMustBe hours) position)
          else if minutes < 0 \<or> minutes > MAX_MINUTES then
            Inl (ParseError (OffsetMinutesMustBe minutes) position)
          else Inr (NumericOffset validSign hours minutes raw)))"

section \<open>Tokens\<close>

record Token =
  tok_type :: TokType
  tok_value :: string
  tok_start :: nat
  tok_end :: nat

text \<open>A combined token; its \<open>type\<close> field is always \<open>TZOffset\<close>.\<close>

record CombinedToken =
  ctok_value :: string
  ctok_tokens :: "Token list"
  ctok_start :: nat
  ctok_end :: nat

datatype AnyToken = Plain (plain: Token) | Combined (combined: CombinedToken)

fun any_type :: "AnyToken \<Rightarrow> AnyTokType" where
  "any_type (Plain t) = Tok (tok_type t)"
| "any_type (Combined c) = Comb TZOffset"

fun any_value :: "AnyToken \<Rightarrow> string" where
  "any_value (Plain t) = tok_value t"
| "any_value (Combined c) = ctok_value c"

fun any_start :: "AnyToken \<Rightarrow> nat" where
  "any_start (Plain t) = tok_start t"
| "any_start (Combined c) = ctok_start c"

fun any_end :: "AnyToken \<Rightarrow> nat" where
  "any_end (Plain t) = tok_end t"
| "any_end (Combined c) = ctok_end c"

section \<open>The lexer\<close>

text \<open>
  \<open>lexTemporal\<close> scans \<open>src\<close> with an index \<open>i\<close>.  The model carries the text from \<open>i\<close> on
  together with \<open>i\<close>, and the tokens pushed so far; \<open>emit\<close> appends a token.
\<close>

definition emit :: "Token list \<Rightarrow> TokType \<Rightarrow> nat \<Rightarrow> nat \<Rightarrow> string \<Rightarrow> Token list" where
  "emit tokens ty start end' v =
     tokens @ [\<lparr>tok_type = ty, tok_value = v, tok_start = start, tok_end = end'\<rparr>]"

text \<open>
  The single-character tokens inside brackets: the chain of tests
  \<^verbatim>\<open>if (ch === '=') { emit(TokType.Equals, i, i + 1); i++; continue; }\<close> and so on.
\<close>

definition bracketPunctuation :: "char \<Rightarrow> TokType option" where
  "bracketPunctuation ch =
     (if ch = CHR ''='' then Some Equals
      else if ch = CHR ''_'' then Some Underscore
      else if ch = CHR '':'' then Some Colon
      else if ch = CHR ''-'' then Some Dash
      else if ch = CHR ''+'' then Some Plus
      else if ch = CHR ''/'' then Some Slash
      else if ch = CHR ''.'' then Some Dot
      else if ch = CHR '','' then Some Comma
      else if ch = CHR ''!'' then Some Exclamation
      else None)"

text \<open>The \<open>switch\<close> on punctuation in default mode; \<open>None\<close> is its \<open>default\<close> branch.\<close>

definition punctuation :: "char \<Rightarrow> TokType option" where
  "punctuation ch =
     (if ch = CHR ''-'' then Some Dash
      else if ch = CHR '':'' then Some Colon
      else if ch = CHR ''.'' then Some Dot
      else if ch = CHR ''+'' then Some Plus
      else if ch = CHR ''/'' then Some Slash
      else if ch = CHR '','' then Some Comma
      else if ch = CHR ''='' then Some Equals
      else if ch = CHR ''_'' then Some Underscore
      else None)"

text \<open>
  \<open>lexBracketContent\<close>: called after \<open>[\<close>; returns at \<open>]\<close> (left unconsumed), with the
  rest of the text, the index and the tokens.
\<close>

function lexBracketContent :: "string \<Rightarrow> nat \<Rightarrow> Token list \<Rightarrow> error + (string \<times> nat \<times> Token list)" where
  "lexBracketContent [] i tokens = Inl (LexError UnterminatedBracketAnnotation i)"
| "lexBracketContent (ch # cs) i tokens =
     (if ch = CHR '']'' then Inr (ch # cs, i, tokens)
      else if isWhiteSpace ch then lexBracketContent cs (i + 1) tokens
      else if bracketPunctuation ch \<noteq> None then
        lexBracketContent cs (i + 1) (emit tokens (the (bracketPunctuation ch)) i (i + 1) [ch])
      else if isBracketWordChar ch then
        (let text = ch # takeWhile isBracketWordChar cs;
             j = i + length text
         in lexBracketContent (dropWhile isBracketWordChar cs) j
              (emit tokens (if list_all isAlpha text then Ident else BracketText) i j text))
      else Inl (LexError (UnexpectedCharacterInsideBrackets ch) i))"
  by pat_completeness auto
termination
  by (relation "measure (\<lambda>(s, i, tokens). length s)")
     (auto simp: le_imp_less_Suc length_dropWhile_le)

lemma lexBracketContent_length:
  "lexBracketContent s i tokens = Inr (rest, j, tokens') \<Longrightarrow> length rest \<le> length s"
proof (induction s i tokens rule: lexBracketContent.induct)
  case (1 i tokens)
  then show ?case by simp
next
  case (2 ch cs i tokens)
  have d: "length (dropWhile isBracketWordChar cs) \<le> length cs"
    by (rule length_dropWhile_le)
  show ?case
  proof (cases "ch = CHR '']''")
    case True
    with 2(4) show ?thesis by simp
  next
    case nb: False
    show ?thesis
    proof (cases "isWhiteSpace ch")
      case True
      with nb 2(1) 2(4) show ?thesis by simp
    next
      case nw: False
      show ?thesis
      proof (cases "bracketPunctuation ch \<noteq> None")
        case True
        with nb nw 2(2) 2(4) show ?thesis by simp
      next
        case np: False
        show ?thesis
        proof (cases "isBracketWordChar ch")
          case True
          with nb nw np 2(3) [OF nb nw np True refl refl] 2(4) d show ?thesis
            by (simp add: Let_def)
        next
          case False
          with nb nw np 2(4) show ?thesis by simp
        qed
      qed
    qed
  qed
qed

function lexLoop :: "string \<Rightarrow> nat \<Rightarrow> Token list \<Rightarrow> error + Token list" where
  "lexLoop [] i tokens = Inr (emit tokens EOF i i [])"
| "lexLoop (ch # cs) i tokens =
     (if isWhiteSpace ch then lexLoop cs (i + 1) tokens
      else if ch = CHR ''['' then
        (case lexBracketContent cs (i + 1) (emit tokens LBracket i (i + 1) [ch]) of
           Inl e \<Rightarrow> Inl e
         | Inr (rest, j, tokens') \<Rightarrow>
             (if rest = [] \<or> hd rest \<noteq> CHR '']'' then
                Inl (LexError UnterminatedBracketAnnotation j)
              else lexLoop (tl rest) (j + 1) (emit tokens' RBracket j (j + 1) [hd rest])))
      else if isDigit ch then
        (let text = ch # takeWhile isDigit cs; j = i + length text
         in lexLoop (dropWhile isDigit cs) j (emit tokens Number i j text))
      else if isAlpha ch then
        (if ch = CHR ''T'' then lexLoop cs (i + 1) (emit tokens T i (i + 1) ''T'')
         else if ch = CHR ''Z'' then lexLoop cs (i + 1) (emit tokens Z i (i + 1) ''Z'')
         else
           (let text = ch # takeWhile (\<lambda>c. isAlpha c \<and> c \<noteq> CHR ''T'' \<and> c \<noteq> CHR ''Z'') cs;
                j = i + length text
            in lexLoop (dropWhile (\<lambda>c. isAlpha c \<and> c \<noteq> CHR ''T'' \<and> c \<noteq> CHR ''Z'') cs) j
                 (emit tokens Ident i j text)))
      else if punctuation ch \<noteq> None then
        lexLoop cs (i + 1) (emit tokens (the (punctuation ch)) i (i + 1) [ch])
      else Inl (LexError (UnexpectedCharacter ch) i))"
  by pat_completeness auto
termination
proof (relation "measure (\<lambda>(s, i, tokens). length s)", goal_cases)
  case 1
  show ?case by simp
next
  case (2 ch cs i tokens)
  show ?case by simp
next
  case (3 ch cs i tokens x2 rest y j tokens')
  from 3 have "lexBracketContent cs (i + 1) (emit tokens LBracket i (i + 1) [ch]) = Inr (rest, j, tokens')"
    by simp
  from lexBracketContent_length [OF this] 3 show ?case
    by (cases rest) auto
next
  case (4 ch cs i tokens w j)
  show ?case by (simp add: le_imp_less_Suc length_dropWhile_le)
next
  case (5 ch cs i tokens)
  show ?case by simp
next
  case (6 ch cs i tokens)
  show ?case by simp
next
  case (7 ch cs i tokens w j)
  show ?case by (simp add: le_imp_less_Suc length_dropWhile_le)
next
  case (8 ch cs i tokens)
  show ?case by simp
qed

definition lexTemporal :: "string \<Rightarrow> error + Token list" where
  "lexTemporal src = lexLoop src 0 []"

section \<open>combineTimezoneOffsets\<close>

text \<open>
  The parameter is declared as \<open>Token[]\<close>; the function reads only the \<open>type\<close>, \<open>value\<close>,
  \<open>start\<close> and \<open>end\<close> of a token, and the model takes any tokens, so that the function
  applies to its own result.  The model carries the tokens from the index \<open>i\<close> on;
  \<open>peek k\<close> is the \<open>k\<close>-th of them, when there is one.
\<close>

definition couldBeTzOffset :: "AnyToken list \<Rightarrow> bool" where
  "couldBeTzOffset out =
     (if length out < 1 then False
      else let prev = last out in
      if any_type prev = Tok Z then False
      else if any_type prev = Tok RBracket then False
      else if any_type prev = Tok Number then
        (if length out < 2 then False
         else let prevPrev = out ! (length out - 2) in
         if any_type prevPrev = Tok Colon then True
         else if any_type prevPrev = Tok Dot then True
         else False)
      else False)"

definition peekType :: "AnyToken list \<Rightarrow> nat \<Rightarrow> AnyTokType option" where
  "peekType tokens k = (if k < length tokens then Some (any_type (tokens ! k)) else None)"

function combineLoop :: "AnyToken list \<Rightarrow> AnyToken list \<Rightarrow> AnyToken list" where
  "combineLoop [] out = out"
| "combineLoop (t # rest) out =
     (let tokens = t # rest;
          isSign = (any_type t = Tok Plus \<or> any_type t = Tok Dash)
      in if isSign \<and> couldBeTzOffset out then
           (if peekType tokens 1 = Some (Tok Number) \<and> peekType tokens 2 = Some (Tok Colon)
               \<and> peekType tokens 3 = Some (Tok Number) then
              combineLoop (drop 4 tokens)
                (out @ [Combined \<lparr>ctok_value = any_value t @ any_value (tokens ! 1) @ '':''
                                      @ any_value (tokens ! 3),
                                   ctok_tokens = map plain (take 4 tokens),
                                   ctok_start = any_start t,
                                   ctok_end = any_end (tokens ! 3)\<rparr>])
            else if peekType tokens 1 = Some (Tok Number)
                    \<and> (length (any_value (tokens ! 1)) = 2 \<or> length (any_value (tokens ! 1)) = 4) then
              combineLoop (drop 2 tokens)
                (out @ [Combined \<lparr>ctok_value = any_value t @ any_value (tokens ! 1),
                                   ctok_tokens = map plain (take 2 tokens),
                                   ctok_start = any_start t,
                                   ctok_end = any_end (tokens ! 1)\<rparr>])
            else combineLoop rest (out @ [t]))
         else combineLoop rest (out @ [t]))"
  by pat_completeness auto
termination
  by (relation "measure (\<lambda>(tokens, out). length tokens)") auto

definition combineTimezoneOffsets :: "AnyToken list \<Rightarrow> AnyToken list" where
  "combineTimezoneOffsets tokens = combineLoop tokens []"

section \<open>The abstract syntax, continued\<close>

record DateAst =
  date_year :: int
  date_month :: "int option"
  date_day :: "int option"

record TimeAst =
  time_hour :: int
  time_minute :: int
  time_second :: "int option"
  time_fraction :: "string option"

record TimeZoneAst =
  tz_id :: string
  tz_critical :: bool

text \<open>
  \<open>pairs: Record<string, string | true>\<close> is a plain object; the model is the list of its
  own properties in the order in which the host enumerates them.
\<close>

datatype PairValue = PairString string | PairTrue

record AnnotationAst =
  ann_raw :: string
  ann_critical :: bool
  ann_pairs :: "(string \<times> PairValue) list"

record DateTimeAst =
  dt_date :: DateAst
  dt_time :: "TimeAst option"
  dt_offset :: "OffsetAst option"
  dt_timeZone :: "TimeZoneAst option"
  dt_annotations :: "AnnotationAst list"

record DurationAst =
  dur_years :: "jsnum option"
  dur_months :: "jsnum option"
  dur_weeks :: "jsnum option"
  dur_days :: "jsnum option"
  dur_hours :: "jsnum option"
  dur_minutes :: "jsnum option"
  dur_seconds :: "jsnum option"
  dur_secondsFraction :: "string option"
  dur_raw :: string
  dur_annotations :: "AnnotationAst list"

text \<open>The values the parser builds: a date-time or a duration.\<close>

datatype ValueAst = DateTime DateTimeAst | Duration DurationAst

datatype TemporalAst =
    Range (range_start: "ValueAst option") (range_end: "ValueAst option")
  | Value ValueAst

section \<open>The parser\<close>

text \<open>The class \<open>Parser\<close>: the tokens and the cursor \<open>i\<close>.\<close>

record Parser =
  p_toks :: "AnyToken list"
  p_i :: nat

definition peek :: "Parser \<Rightarrow> AnyToken" where
  "peek p = p_toks p ! min (p_i p) (length (p_toks p) - 1)"

definition atTok :: "Parser \<Rightarrow> AnyTokType \<Rightarrow> bool" where
  "atTok p ty = (any_type (peek p) = ty)"

definition advance :: "Parser \<Rightarrow> Parser" where
  "advance p = p\<lparr>p_i := p_i p + 1\<rparr>"

definition eat :: "Parser \<Rightarrow> AnyTokType \<Rightarrow> error + (AnyToken \<times> Parser)" where
  "eat p ty =
     (let t = peek p
      in if any_type t \<noteq> ty then Inl (ParseError (Expected ty (any_type t)) (p_i p))
         else Inr (t, advance p))"

text \<open>\<open>tryEat\<close>: the token and the advanced parser, or \<open>null\<close> and the parser as it was.\<close>

definition tryEat :: "Parser \<Rightarrow> AnyTokType \<Rightarrow> AnyToken option \<times> Parser" where
  "tryEat p ty = (if atTok p ty then (Some (peek p), advance p) else (None, p))"

definition eof :: "Parser \<Rightarrow> bool" where
  "eof p = atTok p (Tok EOF)"

subsection \<open>Dates and times\<close>

definition parseDate :: "Parser \<Rightarrow> error + (DateAst \<times> Parser)" where
  "parseDate p =
     and_then (eat p (Tok Number)) (\<lambda>(yTok, p1).
     and_then (toInt (any_value yTok) ''year'' (p_i p1)) (\<lambda>year.
     case tryEat p1 (Tok Dash) of
       (None, _) \<Rightarrow> Inr (\<lparr>date_year = year, date_month = None, date_day = None\<rparr>, p1)
     | (Some _, p2) \<Rightarrow>
         and_then (eat p2 (Tok Number)) (\<lambda>(mTok, p3).
         and_then (toInt (any_value mTok) ''month'' (p_i p3)) (\<lambda>month.
         case tryEat p3 (Tok Dash) of
           (None, _) \<Rightarrow> Inr (\<lparr>date_year = year, date_month = Some month, date_day = None\<rparr>, p3)
         | (Some _, p4) \<Rightarrow>
             and_then (eat p4 (Tok Number)) (\<lambda>(dTok, p5).
             and_then (toInt (any_value dTok) ''day'' (p_i p5)) (\<lambda>day.
             Inr (\<lparr>date_year = year, date_month = Some month, date_day = Some day\<rparr>, p5)))))))"

definition parseTime :: "Parser \<Rightarrow> error + (TimeAst \<times> Parser)" where
  "parseTime p =
     and_then (eat p (Tok Number)) (\<lambda>(hTok, p1).
     and_then (toInt (any_value hTok) ''hour'' (p_i p1)) (\<lambda>hour.
     and_then (eat p1 (Tok Colon)) (\<lambda>(_, p2).
     and_then (eat p2 (Tok Number)) (\<lambda>(minTok, p3).
     and_then (toInt (any_value minTok) ''minute'' (p_i p3)) (\<lambda>minute.
     case tryEat p3 (Tok Colon) of
       (None, _) \<Rightarrow>
         Inr (\<lparr>time_hour = hour, time_minute = minute, time_second = None,
                time_fraction = None\<rparr>, p3)
     | (Some _, p4) \<Rightarrow>
         and_then (eat p4 (Tok Number)) (\<lambda>(sTok, p5).
         and_then (toInt (any_value sTok) ''second'' (p_i p5)) (\<lambda>second.
         case tryEat p5 (Tok Dot) of
           (None, _) \<Rightarrow>
             Inr (\<lparr>time_hour = hour, time_minute = minute, time_second = Some second,
                    time_fraction = None\<rparr>, p5)
         | (Some _, p6) \<Rightarrow>
             and_then (eat p6 (Tok Number)) (\<lambda>(fracTok, p7).
             Inr (\<lparr>time_hour = hour, time_minute = minute, time_second = Some second,
                    time_fraction = Some (any_value fracTok)\<rparr>, p7)))))))))"

definition parseOffsetIfPresent :: "Parser \<Rightarrow> error + (OffsetAst option \<times> Parser)" where
  "parseOffsetIfPresent p =
     (case tryEat p (Tok Z) of
        (Some _, p1) \<Rightarrow> Inr (Some UtcOffset, p1)
      | (None, _) \<Rightarrow>
          if atTok p (Comb TZOffset) then
            and_then (eat p (Comb TZOffset)) (\<lambda>(t, p1).
            and_then (parseOffset (any_value t) (p_i p1)) (\<lambda>offset.
            Inr (Some offset, p1)))
          else Inr (None, p))"

subsection \<open>Bracket groups\<close>

record BracketGroup =
  bg_raw :: string
  bg_critical :: bool
  bg_pairs :: "(string \<times> PairValue) list"
  bg_isLikelyTzId :: bool

text \<open>
  The loop that gathers the token texts up to \<open>]\<close>.  \<open>peek\<close> never reads beyond the last
  token, so on a token list whose last token is neither \<open>]\<close> nor \<open>EOF\<close> the loop of the
  source does not end once the cursor has reached it.
\<close>

function gatherParts :: "Parser \<Rightarrow> string list \<Rightarrow> error + (string list \<times> Parser)" where
  "gatherParts p parts =
     (if atTok p (Tok RBracket) then Inr (parts, p)
      else if eof p then Inl (ParseError UnterminatedBracketGroup (p_i p))
      else if Suc (p_i p) < length (p_toks p) then
        gatherParts (advance p) (parts @ [any_value (peek p)])
      else Inl NonTermination)"
  by pat_completeness auto
termination
  by (relation "measure (\<lambda>(p, parts). length (p_toks p) - p_i p)") (auto simp: advance_def)

declare gatherParts.simps [simp del]

text \<open>
  \<open>pairs[k] = v\<close> on the plain object \<open>pairs\<close>, as the host defines it.  The key
  \<open>__proto__\<close> reaches the setter inherited from \<open>Object.prototype\<close>, which ignores a
  string and \<open>true\<close>: no property is created.  A key that is present keeps its place and
  takes the new value.  A new key that is an array index (the canonical decimal text of an
  integer from 0 to \<open>2^32 - 2\<close>) is listed among the array indices, in ascending order,
  before every other key; any other new key is listed last.
\<close>

definition isArrayIndex :: "string \<Rightarrow> bool" where
  "isArrayIndex k =
     (k \<noteq> [] \<and> list_all isDigit k \<and> (k = ''0'' \<or> hd k \<noteq> CHR ''0'')
      \<and> radix_val 10 k < 2 ^ 32 - 1)"

fun insertIndex :: "string \<Rightarrow> PairValue \<Rightarrow> (string \<times> PairValue) list \<Rightarrow> (string \<times> PairValue) list" where
  "insertIndex k v [] = [(k, v)]"
| "insertIndex k v ((k', v') # ps) =
     (if isArrayIndex k' \<and> radix_val 10 k' < radix_val 10 k then (k', v') # insertIndex k v ps
      else (k, v) # (k', v') # ps)"

definition setProperty :: "(string \<times> PairValue) list \<Rightarrow> string \<Rightarrow> PairValue \<Rightarrow> (string \<times> PairValue) list" where
  "setProperty pairs k v =
     (if k = ''__proto__'' then pairs
      else if map_of pairs k \<noteq> None then AList.update k v pairs
      else if isArrayIndex k then insertIndex k v pairs
      else pairs @ [(k, v)])"

text \<open>The body of \<open>for (const seg of segments)\<close>.\<close>

definition addSegment :: "(string \<times> PairValue) list \<Rightarrow> string \<Rightarrow> (string \<times> PairValue) list" where
  "addSegment pairs seg =
     (case indexOf seg CHR ''='' of
        None \<Rightarrow> setProperty pairs seg PairTrue
      | Some eq \<Rightarrow>
          (let k = trim (take eq seg); v = trim (drop (eq + 1) seg)
           in if k \<noteq> [] then setProperty pairs k (if v \<noteq> [] then PairString v else PairTrue)
              else pairs))"

text \<open>
  The second half of \<open>parseBracketGroup\<close>, from \<open>const raw = parts.join('')\<close> on: the raw
  text, the pairs and the time-zone heuristic, computed from the gathered parts.
\<close>

definition bracketGroupOf :: "string list \<Rightarrow> bool \<Rightarrow> BracketGroup" where
  "bracketGroupOf parts critical =
     (let raw = concat parts;
          contentToParse = (if critical then drop 1 raw else raw);
          segments = filter (\<lambda>s. s \<noteq> []) (map trim (split CHR '','' contentToParse));
          pairs = foldl addSegment [] segments;
          isLikelyTzId =
            (indexOf contentToParse CHR ''='' = None
             \<and> (CHR ''/'' \<in> set contentToParse \<or> startsWith contentToParse ''Etc/''))
      in \<lparr>bg_raw = raw, bg_critical = critical, bg_pairs = pairs,
           bg_isLikelyTzId = isLikelyTzId\<rparr>)"

definition parseBracketGroup :: "Parser \<Rightarrow> error + (BracketGroup \<times> Parser)" where
  "parseBracketGroup p =
     and_then (eat p (Tok LBracket)) (\<lambda>(_, p1).
     case tryEat p1 (Tok Exclamation) of (ex, p2) \<Rightarrow>
     let critical = (ex \<noteq> None) in
     and_then (gatherParts p2 (if critical then [''!''] else [])) (\<lambda>(parts, p3).
     and_then (eat p3 (Tok RBracket)) (\<lambda>(_, p4).
     Inr (bracketGroupOf parts critical, p4))))"

lemma and_then_eq_Inr:
  "(and_then m f = Inr y) = (\<exists>x. m = Inr x \<and> f x = Inr y)"
  by (cases m) (simp_all add: and_then_def)

lemma and_then_Inr [simp]: "and_then (Inr x) f = f x"
  by (simp add: and_then_def)

lemma and_then_Inl [simp]: "and_then (Inl e) f = Inl e"
  by (simp add: and_then_def)

lemma peek_clamped:
  assumes "length (p_toks p) \<le> p_i p" and "p_toks q = p_toks p" and "p_i p \<le> p_i q"
  shows "peek q = peek p"
proof -
  have "min (p_i p) (length (p_toks p) - 1) = length (p_toks p) - 1"
    using assms(1) by simp
  moreover have "min (p_i q) (length (p_toks p) - 1) = length (p_toks p) - 1"
    using assms(1) assms(3) by simp
  ultimately show ?thesis
    using assms(2) by (simp add: peek_def)
qed

lemma eat_Inr:
  "eat p ty = Inr (t, p') \<Longrightarrow> p' = advance p \<and> t = peek p \<and> atTok p ty"
  by (auto simp: eat_def atTok_def Let_def split: if_splits)

lemma tryEat_Some:
  "tryEat p ty = (Some t, p') \<Longrightarrow> p' = advance p \<and> t = peek p \<and> atTok p ty"
  by (auto simp: tryEat_def split: if_splits)

lemma tryEat_None:
  "tryEat p ty = (None, p') \<Longrightarrow> p' = p \<and> \<not> atTok p ty"
  by (auto simp: tryEat_def split: if_splits)

lemma tryEat_progress:
  "tryEat p ty = (r, p') \<Longrightarrow> p_toks p' = p_toks p \<and> p_i p \<le> p_i p'"
  by (auto simp: tryEat_def advance_def split: if_splits)

lemma and_then_pair_InrE:
  assumes "and_then m (\<lambda>(a, b). f a b) = Inr y"
  obtains a b where "m = Inr (a, b)" and "f a b = Inr y"
  using assms by (cases m) (auto simp: and_then_def)

lemma gatherParts_progress:
  "gatherParts p parts = Inr (parts', p') \<Longrightarrow>
     p_toks p' = p_toks p \<and> p_i p \<le> p_i p' \<and> atTok p' (Tok RBracket)"
proof (induction p parts rule: gatherParts.induct)
  case (1 p parts)
  note eq = gatherParts.simps [of p parts]
  show ?case
  proof (cases "atTok p (Tok RBracket)")
    case True
    with 1(2) eq show ?thesis by simp
  next
    case False
    with 1(2) eq have c: "\<not> eof p" "Suc (p_i p) < length (p_toks p)"
      and r: "gatherParts (advance p) (parts @ [any_value (peek p)]) = Inr (parts', p')"
      by (auto split: if_splits)
    from 1(1) [OF False c r] show ?thesis
      by (simp add: advance_def)
  qed
qed

lemma parseBracketGroup_progress:
  assumes "parseBracketGroup p = Inr (g, p')"
  shows "p_toks p' = p_toks p \<and> p_i p < p_i p' \<and> p_i p < length (p_toks p)"
proof -
  from assms [unfolded parseBracketGroup_def] obtain t1 p1 where
    e1: "eat p (Tok LBracket) = Inr (t1, p1)" and
    r1: "(case tryEat p1 (Tok Exclamation) of (ex, p2) \<Rightarrow>
           let critical = (ex \<noteq> None) in
           and_then (gatherParts p2 (if critical then [''!''] else [])) (\<lambda>(parts, p3).
           and_then (eat p3 (Tok RBracket)) (\<lambda>(_, p4).
           Inr (bracketGroupOf parts critical, p4)))) = Inr (g, p')"
    by (rule and_then_pair_InrE)
  obtain ex p2 where e2: "tryEat p1 (Tok Exclamation) = (ex, p2)"
    by (cases "tryEat p1 (Tok Exclamation)")
  from r1 e2 have
    "and_then (gatherParts p2 (if ex \<noteq> None then [''!''] else [])) (\<lambda>(parts, p3).
       and_then (eat p3 (Tok RBracket)) (\<lambda>(_, p4).
       Inr (bracketGroupOf parts (ex \<noteq> None), p4))) = Inr (g, p')"
    by (simp add: Let_def)
  then obtain parts p3 where
    e3: "gatherParts p2 (if ex \<noteq> None then [''!''] else []) = Inr (parts, p3)" and
    r3: "and_then (eat p3 (Tok RBracket)) (\<lambda>(_, p4).
           Inr (bracketGroupOf parts (ex \<noteq> None), p4)) = Inr (g, p')"
    by (rule and_then_pair_InrE)
  from r3 obtain t4 p4 where
    e4': "eat p3 (Tok RBracket) = Inr (t4, p4)" and
    r4: "Inr (bracketGroupOf parts (ex \<noteq> None), p4) = (Inr (g, p') :: error + BracketGroup \<times> Parser)"
    by (rule and_then_pair_InrE)
  from e4' r4 have e4: "eat p3 (Tok RBracket) = Inr (t4, p')" by simp
  from eat_Inr [OF e1] have a1: "p1 = advance p" "atTok p (Tok LBracket)" by simp_all
  from tryEat_progress [OF e2] have a2: "p_toks p2 = p_toks p1" "p_i p1 \<le> p_i p2" by simp_all
  from gatherParts_progress [OF e3]
  have a3: "p_toks p3 = p_toks p2" "p_i p2 \<le> p_i p3" "atTok p3 (Tok RBracket)" by simp_all
  from eat_Inr [OF e4] have a4: "p' = advance p3" by simp
  have toks: "p_toks p3 = p_toks p" and le: "p_i p < p_i p3"
    using a1 a2 a3 by (simp_all add: advance_def)
  have "p_i p < length (p_toks p)"
  proof (rule ccontr)
    assume "\<not> p_i p < length (p_toks p)"
    then have "peek p3 = peek p"
      using toks le by (intro peek_clamped) simp_all
    with a1(2) a3(3) show False by (simp add: atTok_def)
  qed
  with toks le a4 show ?thesis by (simp add: advance_def)
qed

subsection \<open>Date-times\<close>

text \<open>The loop \<open>while (this.at(TokType.LBracket))\<close> of \<open>parseDateTime\<close>.\<close>

function dateTimeBrackets ::
  "Parser \<Rightarrow> TimeZoneAst option \<Rightarrow> AnnotationAst list
     \<Rightarrow> error + (TimeZoneAst option \<times> AnnotationAst list \<times> Parser)" where
  "dateTimeBrackets p timeZone annotations =
     (if atTok p (Tok LBracket) then
        (case parseBracketGroup p of
           Inl e \<Rightarrow> Inl e
         | Inr (g, p') \<Rightarrow>
             if timeZone = None \<and> bg_isLikelyTzId g then
               dateTimeBrackets p'
                 (Some \<lparr>tz_id = (if bg_critical g then drop 1 (bg_raw g) else bg_raw g),
                        tz_critical = bg_critical g\<rparr>)
                 annotations
             else
               dateTimeBrackets p' timeZone
                 (annotations @ [\<lparr>ann_raw = bg_raw g, ann_critical = bg_critical g,
                                   ann_pairs = bg_pairs g\<rparr>]))
      else Inr (timeZone, annotations, p))"
  by pat_completeness auto
termination
proof (relation "measure (\<lambda>(p, timeZone, annotations). length (p_toks p) - p_i p)", goal_cases)
  case 1
  show ?case by simp
next
  case (2 p timeZone annotations x2 g p')
  then have "parseBracketGroup p = Inr (g, p')" by simp
  from parseBracketGroup_progress [OF this] show ?case
    by (auto intro: diff_less_mono2)
next
  case (3 p timeZone annotations x2 g p')
  then have "parseBracketGroup p = Inr (g, p')" by simp
  from parseBracketGroup_progress [OF this] show ?case
    by (auto intro: diff_less_mono2)
qed

declare dateTimeBrackets.simps [simp del]

definition parseDateTime :: "Parser \<Rightarrow> error + (DateTimeAst \<times> Parser)" where
  "parseDateTime p =
     and_then (parseDate p) (\<lambda>(date, p1).
     and_then
       (case tryEat p1 (Tok T) of
          (Some _, p2) \<Rightarrow> and_then (parseTime p2) (\<lambda>(time, p3). Inr (Some time, p3))
        | (None, _) \<Rightarrow> Inr (None, p1))
       (\<lambda>(time, p4).
     and_then (parseOffsetIfPresent p4) (\<lambda>(offset, p5).
     and_then (dateTimeBrackets p5 None []) (\<lambda>(timeZone, annotations, p6).
     Inr (\<lparr>dt_date = date, dt_time = time, dt_offset = offset, dt_timeZone = timeZone,
            dt_annotations = annotations\<rparr>, p6)))))"

subsection \<open>Durations\<close>

text \<open>\<open>v ?? 0\<close>.\<close>

definition orZero :: "jsnum option \<Rightarrow> jsnum" where
  "orZero v = (case v of None \<Rightarrow> Finite 0 | Some n \<Rightarrow> n)"

text \<open>
  The accumulation of one number and its unit into the duration: the two \<open>if\<close> chains at
  the end of the loop body of \<open>parseDuration\<close>.  \<open>n\<close> is the result of \<open>toInt\<close>, \<open>v\<close> the
  same number as a double; the sum is the sum of the host.
\<close>

definition addUnit ::
  "bool \<Rightarrow> string \<Rightarrow> int \<Rightarrow> string option \<Rightarrow> DurationAst \<Rightarrow> nat \<Rightarrow> error + DurationAst" where
  "addUnit inTime unit n fraction dur position =
     (let v = Finite (of_int n) in
      if \<not> inTime then
        (if unit = ''Y'' then Inr (dur\<lparr>dur_years := Some (js_add (orZero (dur_years dur)) v)\<rparr>)
         else if unit = ''M'' then
           Inr (dur\<lparr>dur_months := Some (js_add (orZero (dur_months dur)) v)\<rparr>)
         else if unit = ''W'' then Inr (dur\<lparr>dur_weeks := Some (js_add (orZero (dur_weeks dur)) v)\<rparr>)
         else if unit = ''D'' then Inr (dur\<lparr>dur_days := Some (js_add (orZero (dur_days dur)) v)\<rparr>)
         else Inl (ParseError (InvalidDurationUnitInDatePart unit) position))
      else
        (if unit = ''H'' then Inr (dur\<lparr>dur_hours := Some (js_add (orZero (dur_hours dur)) v)\<rparr>)
         else if unit = ''M'' then
           Inr (dur\<lparr>dur_minutes := Some (js_add (orZero (dur_minutes dur)) v)\<rparr>)
         else if unit = ''S'' then
           (let dur1 = dur\<lparr>dur_seconds := Some (js_add (orZero (dur_seconds dur)) v)\<rparr>
            in if fraction \<noteq> None \<and> length (the fraction) > 0
               then Inr (dur1\<lparr>dur_secondsFraction := fraction\<rparr>)
               else Inr dur1)
         else Inl (ParseError (InvalidDurationUnitInTimePart unit) position)))"

text \<open>
  One pass through the body of the loop of \<open>parseDuration\<close>: \<open>Continue\<close> for \<open>continue\<close>
  and for the end of the body, \<open>Break\<close> for \<open>break\<close>.  The state is the parser, \<open>inTime\<close>,
  the duration so far and \<open>rawParts\<close>.  On a token list whose last token is \<open>T\<close> the loop of
  the source does not end once the cursor has reached it.
\<close>

datatype 'a loop = Continue 'a | Break 'a

definition durationStep ::
  "Parser \<Rightarrow> bool \<Rightarrow> DurationAst \<Rightarrow> string list
     \<Rightarrow> error + (Parser \<times> bool \<times> DurationAst \<times> string list) loop" where
  "durationStep p inTime dur rawParts =
     (case tryEat p (Tok T) of
        (Some _, p1) \<Rightarrow>
          if Suc (p_i p) < length (p_toks p)
          then Inr (Continue (p1, True, dur, rawParts @ [''T'']))
          else Inl NonTermination
      | (None, _) \<Rightarrow>
          (case tryEat p (Tok Number) of
             (None, _) \<Rightarrow> Inr (Break (p, inTime, dur, rawParts))
           | (Some numTok, p1) \<Rightarrow>
               and_then
                 (case tryEat p1 (Tok Dot) of
                    (Some _, p2) \<Rightarrow>
                      and_then (eat p2 (Tok Number)) (\<lambda>(fracTok, p3).
                      Inr (Some (any_value fracTok),
                           rawParts @ [any_value numTok, ''.'', any_value fracTok], p3))
                  | (None, _) \<Rightarrow> Inr (None, rawParts @ [any_value numTok], p1))
                 (\<lambda>(fraction, rawParts2, p4).
               and_then (eat p4 (Tok Ident)) (\<lambda>(unitTok, p5).
               and_then (toInt (any_value numTok) ''duration number'' (p_i p5)) (\<lambda>n.
               and_then (addUnit inTime (any_value unitTok) n fraction dur (p_i p5)) (\<lambda>dur'.
               Inr (Continue (p5, inTime, dur', rawParts2 @ [any_value unitTok]))))))))"

lemma durationStep_progress:
  assumes "durationStep p inTime dur rawParts = Inr (Continue (p', inTime', dur', rawParts'))"
  shows "p_toks p' = p_toks p \<and> p_i p < p_i p' \<and> p_i p < length (p_toks p)"
proof (cases "tryEat p (Tok T)")
  case (Pair r1 q1)
  show ?thesis
  proof (cases r1)
    case (Some t)
    with Pair assms tryEat_Some [of p "Tok T" t q1] show ?thesis
      by (auto simp: durationStep_def advance_def split: if_splits)
  next
    case None
    note nT = this
    obtain r2 q2 where e2: "tryEat p (Tok Number) = (r2, q2)"
      by (cases "tryEat p (Tok Number)")
    show ?thesis
    proof (cases r2)
      case None
      with nT Pair e2 assms show ?thesis by (simp add: durationStep_def)
    next
      case (Some numTok)
      from tryEat_Some [of p "Tok Number" numTok q2] e2 Some
      have q2: "q2 = advance p" and atN: "atTok p (Tok Number)" by simp_all
      from assms Pair nT e2 Some obtain fraction rawParts2 p4 where
        e3: "(case tryEat q2 (Tok Dot) of
                (Some _, p2) \<Rightarrow>
                  and_then (eat p2 (Tok Number)) (\<lambda>(fracTok, p3).
                  Inr (Some (any_value fracTok),
                       rawParts @ [any_value numTok, ''.'', any_value fracTok], p3))
              | (None, _) \<Rightarrow> Inr (None, rawParts @ [any_value numTok], q2))
             = Inr (fraction, rawParts2, p4)" and
        r3: "and_then (eat p4 (Tok Ident)) (\<lambda>(unitTok, p5).
               and_then (toInt (any_value numTok) ''duration number'' (p_i p5)) (\<lambda>n.
               and_then (addUnit inTime (any_value unitTok) n fraction dur (p_i p5)) (\<lambda>dur'.
               Inr (Continue (p5, inTime, dur', rawParts2 @ [any_value unitTok])))))
             = Inr (Continue (p', inTime', dur', rawParts'))"
        by (auto simp: durationStep_def and_then_eq_Inr)
      have p4: "p_toks p4 = p_toks p \<and> p_i p < p_i p4"
      proof (cases "tryEat q2 (Tok Dot)")
        case (Pair r3 q3)
        show ?thesis
        proof (cases r3)
          case None
          with Pair e3 q2 show ?thesis by (auto simp: advance_def)
        next
          case (Some d)
          from tryEat_Some [of q2 "Tok Dot" d q3] Pair Some have "q3 = advance q2" by simp
          with Pair Some e3 q2 show ?thesis
            by (auto simp: and_then_eq_Inr advance_def dest!: eat_Inr)
        qed
      qed
      from r3 obtain unitTok p5 where
        e5: "eat p4 (Tok Ident) = Inr (unitTok, p5)" and
        r5: "and_then (toInt (any_value numTok) ''duration number'' (p_i p5)) (\<lambda>n.
               and_then (addUnit inTime (any_value unitTok) n fraction dur (p_i p5)) (\<lambda>dur'.
               Inr (Continue (p5, inTime, dur', rawParts2 @ [any_value unitTok]))))
             = Inr (Continue (p', inTime', dur', rawParts'))"
        by (rule and_then_pair_InrE)
      from r5 have "p5 = p'" by (auto simp: and_then_eq_Inr)
      with eat_Inr [OF e5] have p': "p' = advance p4" and atI: "atTok p4 (Tok Ident)" by simp_all
      have "p_i p < length (p_toks p)"
      proof (rule ccontr)
        assume "\<not> p_i p < length (p_toks p)"
        then have "peek p4 = peek p"
          using p4 by (intro peek_clamped) simp_all
        with atN atI show False by (simp add: atTok_def)
      qed
      with p4 p' show ?thesis by (simp add: advance_def)
    qed
  qed
qed

function durationLoop ::
  "Parser \<Rightarrow> bool \<Rightarrow> DurationAst \<Rightarrow> string list
     \<Rightarrow> error + (Parser \<times> bool \<times> DurationAst \<times> string list)" where
  "durationLoop p inTime dur rawParts =
     (if \<not> eof p \<and> \<not> atTok p (Tok Slash) \<and> \<not> atTok p (Tok LBracket) then
        (case durationStep p inTime dur rawParts of
           Inl e \<Rightarrow> Inl e
         | Inr (Break st) \<Rightarrow> Inr st
         | Inr (Continue (p', inTime', dur', rawParts')) \<Rightarrow> durationLoop p' inTime' dur' rawParts')
      else Inr (p, inTime, dur, rawParts))"
  by pat_completeness auto
termination
proof (relation "measure (\<lambda>(p, inTime, dur, rawParts). length (p_toks p) - p_i p)", goal_cases)
  case 1
  show ?case by simp
next
  case (2 p inTime dur rawParts x2 x1 p' y inTime' z dur' rawParts')
  then have "durationStep p inTime dur rawParts = Inr (Continue (p', inTime', dur', rawParts'))"
    by simp
  from durationStep_progress [OF this] show ?case
    by (auto intro: diff_less_mono2)
qed

declare durationLoop.simps [simp del]

text \<open>The loop \<open>while (this.at(TokType.LBracket))\<close> of \<open>parseDuration\<close>.\<close>

function durationBrackets ::
  "Parser \<Rightarrow> AnnotationAst list \<Rightarrow> error + (AnnotationAst list \<times> Parser)" where
  "durationBrackets p annotations =
     (if atTok p (Tok LBracket) then
        (case parseBracketGroup p of
           Inl e \<Rightarrow> Inl e
         | Inr (g, p') \<Rightarrow>
             durationBrackets p'
               (annotations @ [\<lparr>ann_raw = bg_raw g, ann_critical = bg_critical g,
                                 ann_pairs = bg_pairs g\<rparr>]))
      else Inr (annotations, p))"
  by pat_completeness auto
termination
proof (relation "measure (\<lambda>(p, annotations). length (p_toks p) - p_i p)", goal_cases)
  case 1
  show ?case by simp
next
  case (2 p annotations x2 g p')
  then have "parseBracketGroup p = Inr (g, p')" by simp
  from parseBracketGroup_progress [OF this] show ?case
    by (auto intro: diff_less_mono2)
qed

declare durationBrackets.simps [simp del]

definition emptyDuration :: DurationAst where
  "emptyDuration =
     \<lparr>dur_years = None, dur_months = None, dur_weeks = None, dur_days = None,
      dur_hours = None, dur_minutes = None, dur_seconds = None, dur_secondsFraction = None,
      dur_raw = [], dur_annotations = []\<rparr>"

definition parseDuration :: "Parser \<Rightarrow> error + (DurationAst \<times> Parser)" where
  "parseDuration p =
     and_then (eat p (Tok Ident)) (\<lambda>(pTok, p1).
     if any_value pTok \<noteq> ''P'' then Inl (ParseError DurationMustStartWithP (p_i p1))
     else
       and_then (durationLoop p1 False emptyDuration [''P'']) (\<lambda>(p2, inTime, dur, rawParts).
       and_then (durationBrackets p2 []) (\<lambda>(annotations, p3).
       Inr (dur\<lparr>dur_raw := concat rawParts, dur_annotations := annotations\<rparr>, p3))))"

subsection \<open>The entry point\<close>

definition parseValueOrNull :: "Parser \<Rightarrow> error + (ValueAst option \<times> Parser)" where
  "parseValueOrNull p =
     (if atTok p (Tok EOF) \<or> atTok p (Tok Slash) \<or> atTok p (Tok RBracket) then Inr (None, p)
      else if atTok p (Tok Ident) \<and> any_value (peek p) = ''P'' then
        and_then (parseDuration p) (\<lambda>(d, p1). Inr (Some (Duration d), p1))
      else and_then (parseDateTime p) (\<lambda>(d, p1). Inr (Some (DateTime d), p1)))"

text \<open>
  The method \<open>Parser.parseTemporal\<close>.  Every method reads the current token first; on an
  empty token list that read is a property access on \<open>undefined\<close>.
\<close>

definition Parser_parseTemporal :: "Parser \<Rightarrow> error + TemporalAst" where
  "Parser_parseTemporal p =
     (if p_toks p = [] then Inl HostTypeError
      else
        (case tryEat p (Tok Slash) of
           (Some _, p1) \<Rightarrow>
             and_then (parseValueOrNull p1) (\<lambda>(end', p2).
             and_then (eat p2 (Tok EOF)) (\<lambda>_.
             Inr (Range None end')))
         | (None, _) \<Rightarrow>
             and_then (parseValueOrNull p) (\<lambda>(first, p1).
             case first of
               None \<Rightarrow> Inl (ParseError ExpectedAValue (p_i p1))
             | Some f \<Rightarrow>
                 (case tryEat p1 (Tok Slash) of
                    (Some _, p2) \<Rightarrow>
                      and_then (parseValueOrNull p2) (\<lambda>(second, p3).
                      and_then (eat p3 (Tok EOF)) (\<lambda>_.
                      Inr (Range (Some f) second)))
                  | (None, _) \<Rightarrow>
                      and_then (eat p1 (Tok EOF)) (\<lambda>_. Inr (Value f))))))"

text \<open>The exported function \<open>parseTemporal\<close>: lex, combine, parse.\<close>

definition parseTemporal :: "string \<Rightarrow> error + TemporalAst" where
  "parseTemporal src =
     and_then (lexTemporal src) (\<lambda>raw.
     let toks = combineTimezoneOffsets (map Plain raw)
     in Parser_parseTemporal \<lparr>p_toks = toks, p_i = 0\<rparr>)"

section \<open>stringify\<close>

text \<open>\<open>parts.join(sep)\<close>.\<close>

fun join :: "string \<Rightarrow> string list \<Rightarrow> string" where
  "join sep [] = []"
| "join sep [x] = x"
| "join sep (x # y # ys) = x @ sep @ join sep (y # ys)"

definition stringifyDate :: "DateAst \<Rightarrow> string" where
  "stringifyDate date =
     (let parts = [padStart 4 CHR ''0'' (toString (date_year date))] in
      join ''-''
        (case date_month date of
           None \<Rightarrow> parts
         | Some month \<Rightarrow>
             (let parts1 = parts @ [padStart 2 CHR ''0'' (toString month)] in
              case date_day date of
                None \<Rightarrow> parts1
              | Some day \<Rightarrow> parts1 @ [padStart 2 CHR ''0'' (toString day)])))"

definition stringifyTime :: "TimeAst \<Rightarrow> string" where
  "stringifyTime time =
     (let parts = [padStart 2 CHR ''0'' (toString (time_hour time)),
                   padStart 2 CHR ''0'' (toString (time_minute time))] in
      join '':''
        (case time_second time of
           None \<Rightarrow> parts
         | Some second \<Rightarrow>
             (let secondStr = padStart 2 CHR ''0'' (toString second) in
              parts @ [case time_fraction time of
                         None \<Rightarrow> secondStr
                       | Some fraction \<Rightarrow> secondStr @ ''.'' @ fraction])))"

fun stringifyOffset :: "OffsetAst \<Rightarrow> string" where
  "stringifyOffset UtcOffset = ''Z''"
| "stringifyOffset (NumericOffset sign hours minutes raw) =
     sign_char sign # padStart 2 CHR ''0'' (toString hours) @ '':''
       @ padStart 2 CHR ''0'' (toString minutes)"

definition stringifyTimeZone :: "TimeZoneAst \<Rightarrow> string" where
  "stringifyTimeZone timeZone =
     (let id' = (if tz_critical timeZone then ''!'' @ tz_id timeZone else tz_id timeZone)
      in ''['' @ id' @ '']'')"

definition stringifyAnnotation :: "AnnotationAst \<Rightarrow> string" where
  "stringifyAnnotation annotation = ''['' @ ann_raw annotation @ '']''"

definition stringifyDateTime :: "DateTimeAst \<Rightarrow> string" where
  "stringifyDateTime dateTime =
     stringifyDate (dt_date dateTime)
     @ (case dt_time dateTime of None \<Rightarrow> [] | Some time \<Rightarrow> ''T'' @ stringifyTime time)
     @ (case dt_offset dateTime of None \<Rightarrow> [] | Some offset \<Rightarrow> stringifyOffset offset)
     @ (case dt_timeZone dateTime of None \<Rightarrow> [] | Some timeZone \<Rightarrow> stringifyTimeZone timeZone)
     @ concat (map stringifyAnnotation (dt_annotations dateTime))"

text \<open>A component of a duration followed by its designator, when the component is present.\<close>

definition component :: "jsnum option \<Rightarrow> string \<Rightarrow> string" where
  "component v designator =
     (case v of None \<Rightarrow> [] | Some n \<Rightarrow> numberToString n @ designator)"

definition stringifyDuration :: "DurationAst \<Rightarrow> string" where
  "stringifyDuration duration =
     ''P''
     @ component (dur_years duration) ''Y''
     @ component (dur_months duration) ''M''
     @ component (dur_weeks duration) ''W''
     @ component (dur_days duration) ''D''
     @ (let hasTimePart = (dur_hours duration \<noteq> None \<or> dur_minutes duration \<noteq> None
                           \<or> dur_seconds duration \<noteq> None)
        in if hasTimePart then
             ''T''
             @ component (dur_hours duration) ''H''
             @ component (dur_minutes duration) ''M''
             @ (case dur_seconds duration of
                  None \<Rightarrow> []
                | Some seconds \<Rightarrow>
                    numberToString seconds
                    @ (if dur_secondsFraction duration \<noteq> None
                          \<and> length (the (dur_secondsFraction duration)) > 0
                       then ''.'' @ the (dur_secondsFraction duration) else [])
                    @ ''S'')
           else [])
     @ concat (map stringifyAnnotation (dur_annotations duration))"

fun stringifyValue :: "ValueAst \<Rightarrow> string" where
  "stringifyValue (Duration d) = stringifyDuration d"
| "stringifyValue (DateTime d) = stringifyDateTime d"

definition stringifyRange :: "ValueAst option \<Rightarrow> ValueAst option \<Rightarrow> string" where
  "stringifyRange start end' =
     (case start of None \<Rightarrow> [] | Some v \<Rightarrow> stringifyValue v)
     @ ''/''
     @ (case end' of None \<Rightarrow> [] | Some v \<Rightarrow> stringifyValue v)"

fun stringifyTemporal :: "TemporalAst \<Rightarrow> string" where
  "stringifyTemporal (Range start end') = stringifyRange start end'"
| "stringifyTemporal (Value (Duration d)) = stringifyDuration d"
| "stringifyTemporal (Value (DateTime d)) = stringifyDateTime d"

section \<open>Facts about the host functions and the helpers\<close>

lemma bitlen_one: "bitlen 1 = 1"
  using bitlen_twopow_add_eq [of 0 0] by simp

lemma floor_log2_of_int_le:
  assumes "0 < n" and "n < 2 ^ 53"
  shows "floor_log2 (of_int n) \<le> 52"
proof -
  have "bitlen n \<le> 53"
    using assms by (simp add: bitlen_le_iff_power)
  then show ?thesis
    by (simp add: floor_log2_def quotient_of_int Let_def bitlen_one)
qed

lemma round_half_even_of_int: "round_half_even (of_int z) = z"
  by (simp add: round_half_even_def)

lemma to_double_of_int_abs:
  assumes "\<bar>n\<bar> < 2 ^ 53"
  shows "to_double (of_int n) = Finite (of_int n)"
proof (cases "n = 0")
  case True
  then show ?thesis by (simp add: to_double_def)
next
  case False
  define a where "a = \<bar>n\<bar>"
  have a0: "0 < a" "a < 2 ^ 53" using False assms by (simp_all add: a_def)
  define e where "e = max (floor_log2 (of_int a) - 52) (- 1074)"
  have e0: "e \<le> 0"
    using floor_log2_of_int_le [OF a0] by (simp add: e_def)
  define k where "k = nat (- e)"
  have ek: "e = - int k" using e0 by (simp add: k_def)
  have p: "(2::rat) powi e = 1 / 2 ^ k"
    by (simp add: ek power_int_minus_divide)
  have d: "of_int a / (2::rat) powi e = of_int (a * 2 ^ k)"
    by (simp add: p)
  have m: "round_half_even (of_int a / 2 powi e) = a * 2 ^ k"
    unfolding d by (rule round_half_even_of_int)
  have v: "of_int (a * 2 ^ k) * (2::rat) powi e = of_int a"
    by (simp add: p)
  have lt: "\<not> (2 ^ 1024 \<le> (of_int a :: rat))"
  proof -
    have "(of_int a :: rat) < of_int (2 ^ 53)" using a0(2) by (simp only: of_int_less_iff)
    also have "\<dots> \<le> 2 ^ 1024" by simp
    finally show ?thesis by simp
  qed
  have ab: "\<bar>of_int n :: rat\<bar> = of_int a" by (simp add: a_def)
  have nz: "(of_int n :: rat) \<noteq> 0" using False by simp
  have sg: "(if (of_int n :: rat) < 0 then - of_int a else of_int a) = (of_int n :: rat)"
    by (simp add: a_def)
  show ?thesis
    unfolding to_double_def Let_def ab e_def [symmetric] m v
    using nz lt sg by simp
qed

lemma to_double_numeral [simp]:
  "numeral k < (2::int) ^ 53 \<Longrightarrow> to_double (numeral k) = Finite (numeral k)"
  "numeral k < (2::int) ^ 53 \<Longrightarrow> to_double (- numeral k) = Finite (- numeral k)"
  "to_double 1 = Finite 1"
  using to_double_of_int_abs [of "numeral k"] to_double_of_int_abs [of "- numeral k"]
    to_double_of_int_abs [of 1]
  by simp_all

lemma to_double_zero_minus_one [simp]:
  "to_double 0 = Finite 0" "to_double (- 1) = Finite (- 1)"
  using to_double_of_int_abs [of 0] to_double_of_int_abs [of "- 1"] by simp_all

lemma isDigit_not_ws: "isDigit c \<Longrightarrow> \<not> isWhiteSpace c"
  by (auto simp: isDigit_def isWhiteSpace_def less_eq_char_def Let_def)

lemma isDigit_not_colon: "isDigit c \<Longrightarrow> c \<noteq> CHR '':''"
  by (auto simp: isDigit_def less_eq_char_def)

lemma trim_id:
  assumes "s \<noteq> []" and "\<not> isWhiteSpace (hd s)" and "\<not> isWhiteSpace (last s)"
  shows "trim s = s"
proof -
  from assms have 1: "dropWhile isWhiteSpace s = s" by (cases s) simp_all
  from assms have 2: "dropWhile isWhiteSpace (rev s) = rev s"
    by (cases "rev s") (simp_all add: last_rev [symmetric] hd_rev)
  show ?thesis by (simp add: trim_def 1 2)
qed

lemma digit_cases:
  assumes "isDigit c"
  shows "c \<in> set ''0123456789''"
proof -
  from assms have "48 \<le> (of_char c :: nat)" "(of_char c :: nat) \<le> 57"
    by (simp_all add: isDigit_def less_eq_char_def)
  then have "(of_char c :: nat) = of_char CHR ''0'' \<or> (of_char c :: nat) = of_char CHR ''1''
     \<or> (of_char c :: nat) = of_char CHR ''2'' \<or> (of_char c :: nat) = of_char CHR ''3''
     \<or> (of_char c :: nat) = of_char CHR ''4'' \<or> (of_char c :: nat) = of_char CHR ''5''
     \<or> (of_char c :: nat) = of_char CHR ''6'' \<or> (of_char c :: nat) = of_char CHR ''7''
     \<or> (of_char c :: nat) = of_char CHR ''8'' \<or> (of_char c :: nat) = of_char CHR ''9''"
    by (simp, arith)
  then show ?thesis
    unfolding of_char_eq_iff by simp
qed

lemma digit_char_simps:
  "digit_char 0 = CHR ''0''" "digit_char 1 = CHR ''1''" "digit_char 2 = CHR ''2''"
  "digit_char 3 = CHR ''3''" "digit_char 4 = CHR ''4''" "digit_char 5 = CHR ''5''"
  "digit_char 6 = CHR ''6''" "digit_char 7 = CHR ''7''" "digit_char 8 = CHR ''8''"
  "digit_char 9 = CHR ''9''"
  by (simp_all add: digit_char_def char_of_eq_iff)

lemma digit_val_bounds: "isDigit c \<Longrightarrow> 0 \<le> digit_val c \<and> digit_val c \<le> 9"
  by (drule digit_cases) (auto simp: digit_val_def isDigit_def)

lemma digit_char_digit_val: "isDigit c \<Longrightarrow> digit_char (digit_val c) = c"
  by (drule digit_cases) (auto simp: digit_val_def isDigit_def digit_char_simps)

lemma isDigit_digit_char:
  assumes "0 \<le> d" and "d \<le> 9"
  shows "isDigit (digit_char d) \<and> digit_val (digit_char d) = d"
proof -
  from assms have "d = 0 \<or> d = 1 \<or> d = 2 \<or> d = 3 \<or> d = 4 \<or> d = 5 \<or> d = 6 \<or> d = 7 \<or> d = 8 \<or> d = 9"
    by arith
  then show ?thesis
    by (auto simp: digit_char_simps isDigit_def digit_val_def)
qed

lemma split_no_sep: "c \<notin> set s \<Longrightarrow> split c s = [s]"
  by (induction s) auto

lemma split_at_sep: "c \<notin> set h \<Longrightarrow> split c (h @ c # m) = h # split c m"
  by (induction h) auto

lemma radix_val_snoc: "radix_val b (ds @ [c]) = b * radix_val b ds + digit_val c"
  by (simp add: radix_val_def)

lemma radix_val_bound:
  "list_all isDigit ds \<Longrightarrow> 0 \<le> radix_val 10 ds \<and> radix_val 10 ds < 10 ^ length ds"
proof (induction ds rule: rev_induct)
  case Nil
  show ?case by (simp add: radix_val_def)
next
  case (snoc c ds)
  then have d: "isDigit c" and ih: "0 \<le> radix_val 10 ds" "radix_val 10 ds < 10 ^ length ds"
    by simp_all
  from digit_val_bounds [OF d] ih show ?case
    by (simp add: radix_val_snoc)
qed

lemma NonDecimal_digits:
  "list_all isDigit ds \<Longrightarrow> NonDecimalIntegerLiteral ds = None"
  by (auto simp: NonDecimalIntegerLiteral_def isDigit_def split: list.splits)

lemma Number_of_string_digits_any:
  assumes ds: "list_all isDigit ds" and ne: "ds \<noteq> []"
  shows "Number_of_string ds = to_double (of_int (radix_val 10 ds))"
proof -
  from ds ne have hd: "isDigit (hd ds)" and lst: "isDigit (last ds)"
    by (auto simp: list_all_iff)
  have t: "trim ds = ds"
    using ne hd lst by (intro trim_id) (auto dest: isDigit_not_ws)
  have tw: "takeWhile isDigit ds = ds" "dropWhile isDigit ds = []"
    using ds by (simp_all add: list_all_iff)
  have u: "StrUnsignedDecimalLiteral ds = Some (of_int (radix_val 10 ds))"
    using ne by (simp add: StrUnsignedDecimalLiteral_def tw ExponentPart_def Let_def radix_val_def)
  have nh: "hd ds \<noteq> CHR ''-''" "hd ds \<noteq> CHR ''+''" "ds \<noteq> ''Infinity''"
    using hd ne by (auto simp: isDigit_def)
  have "StrDecimalLiteral ds = to_double (of_int (radix_val 10 ds))"
    using nh by (simp add: StrDecimalLiteral_def u Let_def)
  then show ?thesis
    using ne by (simp add: Number_of_string_def t NonDecimal_digits [OF ds] Let_def)
qed

lemma Number_of_string_digits:
  assumes ds: "list_all isDigit ds" and ne: "ds \<noteq> []" and small: "radix_val 10 ds < 2 ^ 53"
  shows "Number_of_string ds = Finite (of_int (radix_val 10 ds))"
  using Number_of_string_digits_any [OF ds ne] to_double_of_int_abs [of "radix_val 10 ds"]
    radix_val_bound [OF ds] small
  by simp

lemma toInt_digits:
  assumes "list_all isDigit ds" and "ds \<noteq> []" and "radix_val 10 ds < 2 ^ 53"
  shows "toInt ds label position = Inr (radix_val 10 ds)"
  by (simp add: toInt_def Number_of_string_digits [OF assms])

lemma toInt_numeral:
  "list_all isDigit ds \<Longrightarrow> ds \<noteq> [] \<Longrightarrow> length ds \<le> 15 \<Longrightarrow>
     toInt ds label position = Inr (radix_val 10 ds)"
proof -
  assume a: "list_all isDigit ds" "ds \<noteq> []" "length ds \<le> 15"
  have "radix_val 10 ds < 10 ^ length ds" using radix_val_bound [OF a(1)] by simp
  also have "\<dots> \<le> (10::int) ^ 15" using a(3) by (intro power_increasing) simp_all
  also have "\<dots> < 2 ^ 53" by simp
  finally show ?thesis using toInt_digits [OF a(1,2)] by simp
qed

lemma numberToString_of_int:
  assumes "0 \<le> n" and "n < 2 ^ 53"
  shows "numberToString (Finite (of_int n)) = digits_of n"
proof (cases "n = 0")
  case True
  then show ?thesis
    by (simp add: numberToString_def digits_of.simps [of 0] digit_char_simps)
next
  case False
  with assms have "(0::rat) < of_int n" "(of_int n :: rat) < 2 ^ 53" by simp_all
  then show ?thesis
    using False by (simp add: numberToString_def positiveToString_def)
qed

lemma toString_small:
  assumes "\<bar>n\<bar> < 2 ^ 53"
  shows "toString n = (if n < 0 then CHR ''-'' # digits_of (- n) else digits_of n)"
proof (cases "n < 0")
  case False
  with assms numberToString_of_int [of n] show ?thesis
    by (simp add: toString_def to_double_of_int_abs)
next
  case True
  with assms have a: "(0::rat) < of_int (- n)" "(of_int (- n) :: rat) < 2 ^ 53"
    by simp_all
  have "positiveToString (of_int (- n)) = digits_of (- n)"
    unfolding positiveToString_def using a(2) by (simp only: floor_of_int simp_thms if_True)
  moreover have "numberToString (Finite (of_int n)) = CHR ''-'' # positiveToString (of_int (- n))"
    using True by (simp add: numberToString_def)
  ultimately show ?thesis
    using True assms by (simp add: toString_def to_double_of_int_abs)
qed

lemma toString_two_digits:
  assumes "0 \<le> h" and "h \<le> 99"
  shows "padStart 2 CHR ''0'' (toString h) = [digit_char (h div 10), digit_char (h mod 10)]"
proof (cases "h < 10")
  case True
  with assms show ?thesis
    by (simp add: toString_small digits_of.simps [of h] padStart_def digit_char_simps)
next
  case False
  with assms have "h div 10 < 10" by simp
  with False assms show ?thesis
    by (simp add: toString_small digits_of.simps [of h] digits_of.simps [of "h div 10"] padStart_def)
qed

lemma two_digits_facts:
  assumes "0 \<le> h" and "h \<le> 99"
  shows "list_all isDigit [digit_char (h div 10), digit_char (h mod 10)]"
    and "radix_val 10 [digit_char (h div 10), digit_char (h mod 10)] = h"
    and "CHR '':'' \<notin> set [digit_char (h div 10), digit_char (h mod 10)]"
proof -
  from assms have a: "0 \<le> h div 10" "h div 10 \<le> 9" and b: "0 \<le> h mod 10" "h mod 10 \<le> 9"
    by simp_all
  note A = isDigit_digit_char [OF a] and B = isDigit_digit_char [OF b]
  from A B show "list_all isDigit [digit_char (h div 10), digit_char (h mod 10)]" by simp
  from A B show "radix_val 10 [digit_char (h div 10), digit_char (h mod 10)] = h"
    by (simp add: radix_val_def)
  from A B show "CHR '':'' \<notin> set [digit_char (h div 10), digit_char (h mod 10)]"
    by (auto dest: isDigit_not_colon)
qed

lemma toInt_two_digits:
  assumes "0 \<le> h" and "h \<le> 99"
  shows "toInt (padStart 2 CHR ''0'' (toString h)) label position = Inr h"
proof -
  note f = two_digits_facts [OF assms]
  from assms have "h < 2 ^ 53" by simp
  with toInt_digits [OF f(1), of label position] f(2) show ?thesis
    by (simp add: toString_two_digits [OF assms])
qed

lemma parseOffset_colon:
  assumes "CHR '':'' \<notin> set H" and "CHR '':'' \<notin> set M"
    and "toInt H ''offset hours'' position = Inr h"
    and "toInt M ''offset minutes'' position = Inr m"
  shows "parseOffset (sign_char s # H @ '':'' @ M) position =
           (if h < 0 \<or> 14 < h then Inl (ParseError (OffsetHoursMustBe h) position)
            else if m < 0 \<or> 59 < m then Inl (ParseError (OffsetMinutesMustBe m) position)
            else Inr (NumericOffset s h m (sign_char s # H @ '':'' @ M)))"
proof -
  have sp: "split CHR '':'' (H @ CHR '':'' # M) = [H, M]"
    using assms(1,2) by (simp add: split_at_sep split_no_sep)
  show ?thesis
    by (cases s)
       (simp_all add: parseOffset_def offsetComponents_def sp assms(3,4) MAX_OFFSET_HOURS_def
          MAX_MINUTES_def Let_def)
qed

lemma parseOffset_canonical:
  assumes "0 \<le> h" and "h \<le> 99" and "0 \<le> m" and "m \<le> 99"
  shows "parseOffset (stringifyOffset (NumericOffset s h m r)) position =
           (if 14 < h then Inl (ParseError (OffsetHoursMustBe h) position)
            else if 59 < m then Inl (ParseError (OffsetMinutesMustBe m) position)
            else Inr (NumericOffset s h m (stringifyOffset (NumericOffset s h m r))))"
proof -
  have cH: "CHR '':'' \<notin> set (padStart 2 CHR ''0'' (toString h))"
    unfolding toString_two_digits [OF assms(1,2)] by (rule two_digits_facts(3) [OF assms(1,2)])
  have cM: "CHR '':'' \<notin> set (padStart 2 CHR ''0'' (toString m))"
    unfolding toString_two_digits [OF assms(3,4)] by (rule two_digits_facts(3) [OF assms(3,4)])
  from parseOffset_colon [OF cH cM toInt_two_digits [OF assms(1,2)] toInt_two_digits [OF assms(3,4)], of s]
    assms
  show ?thesis by simp
qed

lemmas char_class_defs = isDigit_def isAlpha_def isWhiteSpace_def isBracketWordChar_def
  punctuation_def bracketPunctuation_def

lemmas lex_defs = lexTemporal_def emit_def char_class_defs Let_def

lemmas combine_defs = combineTimezoneOffsets_def couldBeTzOffset_def peekType_def Let_def

lemmas parser_defs = Parser_parseTemporal_def parseValueOrNull_def parseDateTime_def
  parseDate_def parseTime_def parseOffsetIfPresent_def parseDuration_def durationStep_def
  addUnit_def orZero_def emptyDuration_def parseBracketGroup_def bracketGroupOf_def
  addSegment_def setProperty_def isArrayIndex_def eat_def tryEat_def atTok_def peek_def eof_def advance_def
  dateTimeBrackets.simps gatherParts.simps durationLoop.simps durationBrackets.simps
  startsWith_def trim_def

lemmas offset_defs = parseOffset_def offsetComponents_def MAX_OFFSET_HOURS_def MAX_MINUTES_def

lemmas number_defs = toInt_def Number_of_string_def NonDecimalIntegerLiteral_def
  StrDecimalLiteral_def StrUnsignedDecimalLiteral_def ExponentPart_def trim_def
  isWhiteSpace_def isDigit_def isRadixDigit_def radix_val_def digit_val_def Let_def

lemma Number_of_string_point_zero:
  assumes ds: "list_all isDigit ds" and ne: "ds \<noteq> []"
  shows "Number_of_string (ds @ ''.0'') = to_double (of_int (radix_val 10 ds))"
proof -
  from ds ne have hd: "isDigit (hd ds)" by (auto simp: list_all_iff)
  have t: "trim (ds @ ''.0'') = ds @ ''.0''"
    using ne hd by (intro trim_id) (auto dest: isDigit_not_ws simp: isWhiteSpace_def)
  have nd: "\<not> isDigit CHR ''.''" by (simp add: isDigit_def)
  have tw: "takeWhile isDigit (ds @ ''.0'') = ds" "dropWhile isDigit (ds @ ''.0'') = ''.0''"
    using ds nd by (simp_all add: list_all_iff takeWhile_append dropWhile_append)
  have u: "StrUnsignedDecimalLiteral (ds @ ''.0'') = Some (of_int (radix_val 10 ds))"
    using ne by (simp add: StrUnsignedDecimalLiteral_def tw ExponentPart_def Let_def radix_val_def
        isDigit_def digit_val_def)
  have nh: "hd (ds @ ''.0'') \<noteq> CHR ''-''" "hd (ds @ ''.0'') \<noteq> CHR ''+''" "ds @ ''.0'' \<noteq> ''Infinity''"
    using hd ne by (auto simp: isDigit_def hd_append)
  have sd: "StrDecimalLiteral (ds @ ''.0'') = to_double (of_int (radix_val 10 ds))"
    using nh by (simp add: StrDecimalLiteral_def u Let_def)
  have n: "NonDecimalIntegerLiteral (ds @ ''.0'') = None"
  proof (cases ds)
    case Nil
    with ne show ?thesis by simp
  next
    case (Cons c cs)
    show ?thesis
    proof (cases cs)
      case Nil
      with Cons show ?thesis by (simp add: NonDecimalIntegerLiteral_def)
    next
      case (Cons d es)
      with \<open>ds = c # cs\<close> ds have "isDigit d" by simp
      then have "d \<noteq> CHR ''x''" "d \<noteq> CHR ''X''" "d \<noteq> CHR ''o''" "d \<noteq> CHR ''O''"
        "d \<noteq> CHR ''b''" "d \<noteq> CHR ''B''"
        by (auto simp: isDigit_def)
      with Cons \<open>ds = c # cs\<close> show ?thesis by (simp add: NonDecimalIntegerLiteral_def)
    qed
  qed
  show ?thesis
    by (simp add: Number_of_string_def t n sd Let_def)
qed

lemma Number_of_string_signed:
  assumes ds: "list_all isDigit ds" and ne: "ds \<noteq> []"
  shows "Number_of_string (CHR ''+'' # ds) = to_double (of_int (radix_val 10 ds))"
    and "Number_of_string (CHR ''-'' # ds) = to_double (- of_int (radix_val 10 ds))"
proof -
  from ds ne have lst: "isDigit (last ds)" by (auto simp: list_all_iff)
  have t: "trim (c # ds) = c # ds" if "\<not> isWhiteSpace c" for c
    using ne lst that by (intro trim_id) (auto dest: isDigit_not_ws)
  have tw: "takeWhile isDigit ds = ds" "dropWhile isDigit ds = []"
    using ds by (simp_all add: list_all_iff)
  have u: "StrUnsignedDecimalLiteral ds = Some (of_int (radix_val 10 ds))"
    using ne by (simp add: StrUnsignedDecimalLiteral_def tw ExponentPart_def Let_def radix_val_def)
  from ds ne have "isDigit (hd ds)" by (auto simp: list_all_iff)
  then have ni: "ds \<noteq> ''Infinity''" by (auto simp: isDigit_def)
  have n: "NonDecimalIntegerLiteral (c # ds) = None" if "c \<noteq> CHR ''0''" for c
    using that by (simp add: NonDecimalIntegerLiteral_def split: list.splits)
  show "Number_of_string (CHR ''+'' # ds) = to_double (of_int (radix_val 10 ds))"
    by (simp add: Number_of_string_def t n StrDecimalLiteral_def u ni Let_def isWhiteSpace_def)
  show "Number_of_string (CHR ''-'' # ds) = to_double (- of_int (radix_val 10 ds))"
    by (simp add: Number_of_string_def t n StrDecimalLiteral_def u ni Let_def isWhiteSpace_def)
qed

lemma to_double_three_halves: "to_double (3 / 2) = Finite (3 / 2)"
  by code_simp

lemma to_double_above_safe: "to_double 9007199254740993 = Finite 9007199254740992"
  by code_simp

lemma floor_three_halves: "\<lfloor>3 / 2 :: rat\<rfloor> = 1"
  by (simp add: floor_eq_iff)


lemmas stringify_defs = stringifyDateTime_def stringifyDate_def stringifyTime_def
  stringifyTimeZone_def stringifyAnnotation_def stringifyDuration_def stringifyRange_def
  component_def toString_small numberToString_of_int digits_of.simps padStart_def
  digit_char_simps Let_def

lemmas parse_eval = parseTemporal_def lex_defs combine_defs parser_defs toInt_numeral
  radix_val_def digit_val_def

lemma parseOffset_Inr:
  assumes "parseOffset text position = Inr off"
  shows "\<exists>s h m. off = NumericOffset s h m text \<and> 0 \<le> h \<and> h \<le> 14 \<and> 0 \<le> m \<and> m \<le> 59
           \<and> sign_char s = hd text"
proof -
  let ?sg = "if hd text = CHR ''+'' then PlusSign else MinusSign"
  from assms have sgn: "hd text = CHR ''+'' \<or> hd text = CHR ''-''"
    and ne: "text \<noteq> []" "tl text \<noteq> []"
    by (auto simp: parseOffset_def Let_def split: if_splits)
  from sgn have sc: "sign_char ?sg = hd text" by auto
  from assms sgn ne have
    "and_then (offsetComponents text (tl text) position) (\<lambda>(hours, minutes).
          if hours < 0 \<or> hours > MAX_OFFSET_HOURS then
            Inl (ParseError (OffsetHoursMustBe hours) position)
          else if minutes < 0 \<or> minutes > MAX_MINUTES then
            Inl (ParseError (OffsetMinutesMustBe minutes) position)
          else Inr (NumericOffset ?sg hours minutes text)) = Inr off"
    by (auto simp: parseOffset_def Let_def)
  then obtain h m where
    "(if h < 0 \<or> h > MAX_OFFSET_HOURS then
            Inl (ParseError (OffsetHoursMustBe h) position)
          else if m < 0 \<or> m > MAX_MINUTES then
            Inl (ParseError (OffsetMinutesMustBe m) position)
          else Inr (NumericOffset ?sg h m text)) = Inr off"
    by (rule and_then_pair_InrE)
  then have "off = NumericOffset ?sg h m text \<and> 0 \<le> h \<and> h \<le> 14 \<and> 0 \<le> m \<and> m \<le> 59"
    by (auto simp: MAX_OFFSET_HOURS_def MAX_MINUTES_def split: if_splits)
  with sc show ?thesis by blast
qed

lemma parseOffset_components:
  assumes "text \<noteq> []" and "hd text = sign_char s" and "tl text \<noteq> []"
    and "offsetComponents text (tl text) position = Inr (hh, mm)"
  shows "parseOffset text position =
           (if hh < 0 \<or> 14 < hh then Inl (ParseError (OffsetHoursMustBe hh) position)
            else if mm < 0 \<or> 59 < mm then Inl (ParseError (OffsetMinutesMustBe mm) position)
            else Inr (NumericOffset s hh mm text))"
  using assms
  by (cases s) (simp_all add: parseOffset_def MAX_OFFSET_HOURS_def MAX_MINUTES_def Let_def)

lemma parseOffset_compact:
  assumes "length D = 4" and "CHR '':'' \<notin> set D"
    and "toInt (take 2 D) ''offset hours'' position = Inr hh"
    and "toInt (drop 2 D) ''offset minutes'' position = Inr mm"
  shows "parseOffset (sign_char s # D) position =
           (if hh < 0 \<or> 14 < hh then Inl (ParseError (OffsetHoursMustBe hh) position)
            else if mm < 0 \<or> 59 < mm then Inl (ParseError (OffsetMinutesMustBe mm) position)
            else Inr (NumericOffset s hh mm (sign_char s # D)))"
proof -
  from assms(1) have "D \<noteq> []" by auto
  moreover have "offsetComponents (sign_char s # D) D position = Inr (hh, mm)"
    using assms by (simp add: offsetComponents_def)
  ultimately show ?thesis
    using parseOffset_components [of "sign_char s # D" s position hh mm] by simp
qed

lemma parseOffset_short:
  assumes "length D = 2" and "CHR '':'' \<notin> set D"
    and "toInt D ''offset hours'' position = Inr hh"
  shows "parseOffset (sign_char s # D) position =
           (if hh < 0 \<or> 14 < hh then Inl (ParseError (OffsetHoursMustBe hh) position)
            else Inr (NumericOffset s hh 0 (sign_char s # D)))"
proof -
  from assms(1) have "D \<noteq> []" by auto
  moreover have "offsetComponents (sign_char s # D) D position = Inr (hh, 0)"
    using assms by (simp add: offsetComponents_def)
  ultimately show ?thesis
    using parseOffset_components [of "sign_char s # D" s position hh 0] by simp
qed

lemma toInt_minus_one: "toInt ''-1'' label position = Inr (- 1)"
proof -
  have "\<lfloor>- 1 :: rat\<rfloor> = - 1" using floor_of_int [of "- 1", where ?'a = rat] by simp
  then show ?thesis by (simp add: number_defs)
qed

lemma toInt_above_safe:
  "toInt ''9007199254740993'' label position = Inr 9007199254740992"
  "toInt ''9007199254740993.0'' label position = Inr 9007199254740992"
proof -
  have d: "list_all isDigit ''9007199254740993''" by (simp add: isDigit_def)
  have v: "radix_val 10 ''9007199254740993'' = 9007199254740993"
    by (simp add: radix_val_def digit_val_def isDigit_def)
  show "toInt ''9007199254740993'' label position = Inr 9007199254740992"
    using Number_of_string_digits_any [OF d]
    by (simp add: toInt_def v to_double_above_safe)
  show "toInt ''9007199254740993.0'' label position = Inr 9007199254740992"
    using Number_of_string_point_zero [OF d]
    by (simp add: toInt_def v to_double_above_safe)
qed


text \<open>The lexer on a run of digits, on a single letter and on \<open>T\<close>.\<close>

lemma isAlpha_not_digit: "isAlpha c \<Longrightarrow> \<not> isDigit c"
  by (auto simp: isAlpha_def isDigit_def less_eq_char_def)

lemma isDigit_not_alpha: "isDigit c \<Longrightarrow> \<not> isAlpha c"
  by (auto simp: isAlpha_def isDigit_def less_eq_char_def)

lemma isAlpha_not_ws: "isAlpha c \<Longrightarrow> \<not> isWhiteSpace c"
  by (auto simp: isAlpha_def isWhiteSpace_def less_eq_char_def Let_def)

lemma isAlpha_not_bracket: "isAlpha c \<Longrightarrow> c \<noteq> CHR ''[''"
  by (auto simp: isAlpha_def less_eq_char_def)

lemma lexLoop_digits:
  assumes "list_all isDigit ds" and "ds \<noteq> []" and "rest = [] \<or> \<not> isDigit (hd rest)"
  shows "lexLoop (ds @ rest) i tokens
           = lexLoop rest (i + length ds) (emit tokens Number i (i + length ds) ds)"
proof -
  from assms(2) obtain c cs where ds: "ds = c # cs" by (cases ds) auto
  with assms(1) have c: "isDigit c" and cs: "list_all isDigit cs" by simp_all
  from c have nw: "\<not> isWhiteSpace c" by (rule isDigit_not_ws)
  from c have nb: "c \<noteq> CHR ''[''" by (auto simp: isDigit_def)
  have tw: "takeWhile isDigit (cs @ rest) = cs" "dropWhile isDigit (cs @ rest) = rest"
    using cs assms(3) by (cases rest; simp add: list_all_iff takeWhile_append dropWhile_append)+
  show ?thesis
    using c nw nb by (simp add: ds tw Let_def)
qed

lemma lexLoop_letter:
  assumes "isAlpha u" and "u \<noteq> CHR ''T''" and "u \<noteq> CHR ''Z''"
    and "rest = [] \<or> \<not> isAlpha (hd rest) \<or> hd rest = CHR ''T'' \<or> hd rest = CHR ''Z''"
  shows "lexLoop (u # rest) i tokens = lexLoop rest (i + 1) (emit tokens Ident i (i + 1) [u])"
proof -
  note n = isAlpha_not_ws [OF assms(1)] isAlpha_not_bracket [OF assms(1)]
    isAlpha_not_digit [OF assms(1)]
  have tw: "takeWhile (\<lambda>c. isAlpha c \<and> c \<noteq> CHR ''T'' \<and> c \<noteq> CHR ''Z'') rest = []"
    "dropWhile (\<lambda>c. isAlpha c \<and> c \<noteq> CHR ''T'' \<and> c \<noteq> CHR ''Z'') rest = rest"
    using assms(4) by (cases rest; auto)+
  show ?thesis
    using assms(1-3) n by (simp add: tw Let_def)
qed

lemma lexLoop_T:
  "lexLoop (CHR ''T'' # rest) i tokens = lexLoop rest (i + 1) (emit tokens T i (i + 1) ''T'')"
  by (simp add: char_class_defs)

section \<open>The offset parser\<close>

text \<open>
  C8.  \<open>parseOffset\<close> accepts hours from 0 to 14 and minutes from 0 to 59, and fails with a
  range error otherwise.  Whatever the shape of the text, once the hours and the minutes have
  been read (\<open>offsetComponents\<close>), the result is the hours-range error when the hours are
  negative or above 14, else the minutes-range error when the minutes are negative or above
  59, else the numeric offset; and a successful result always has hours from 0 to 14 and
  minutes from 0 to 59.  This is spelled out for the three shapes: the parts around a colon,
  four characters, two characters, each read by \<open>toInt\<close>, which may give any integer; and
  for digit texts of any width around a colon.  For all hours \<open>h\<close> and minutes \<open>m\<close> from 0
  to 99 the text sign, two digits of \<open>h\<close>, colon, two digits of \<open>m\<close> (the text that
  \<open>stringifyOffset\<close> prints) parses to sign, \<open>h\<close>, \<open>m\<close> when \<open>h \<le> 14\<close> and \<open>m \<le> 59\<close>.
  \<open>+15:00\<close> and \<open>-15:00\<close> raise the hours-range error, \<open>+14:00\<close> and \<open>-12:00\<close> succeed;
  \<open>+-1:00\<close> raises the hours-range error for \<open>-1\<close>, \<open>+05:-1\<close> the minutes-range error.
\<close>

theorem offset_range_validation:
  "parseOffset ''+15:00'' position = Inl (ParseError (OffsetHoursMustBe 15) position)
   \<and> parseOffset ''-15:00'' position = Inl (ParseError (OffsetHoursMustBe 15) position)
   \<and> parseOffset ''+14:00'' position = Inr (NumericOffset PlusSign 14 0 ''+14:00'')
   \<and> parseOffset ''-12:00'' position = Inr (NumericOffset MinusSign 12 0 ''-12:00'')
   \<and> (0 \<le> h \<and> h \<le> 99 \<and> 0 \<le> m \<and> m \<le> 99 \<longrightarrow>
        parseOffset (stringifyOffset (NumericOffset s h m r)) position =
          (if 14 < h then Inl (ParseError (OffsetHoursMustBe h) position)
           else if 59 < m then Inl (ParseError (OffsetMinutesMustBe m) position)
           else Inr (NumericOffset s h m (stringifyOffset (NumericOffset s h m r)))))
   \<and> (text \<noteq> [] \<and> hd text = sign_char s \<and> tl text \<noteq> []
        \<and> offsetComponents text (tl text) position = Inr (hh, mm) \<longrightarrow>
        parseOffset text position =
          (if hh < 0 \<or> 14 < hh then Inl (ParseError (OffsetHoursMustBe hh) position)
           else if mm < 0 \<or> 59 < mm then Inl (ParseError (OffsetMinutesMustBe mm) position)
           else Inr (NumericOffset s hh mm text)))
   \<and> (parseOffset text position = Inr off \<longrightarrow>
        (\<exists>s' h' m'. off = NumericOffset s' h' m' text
           \<and> 0 \<le> h' \<and> h' \<le> 14 \<and> 0 \<le> m' \<and> m' \<le> 59))
   \<and> (CHR '':'' \<notin> set H \<and> CHR '':'' \<notin> set M
        \<and> toInt H ''offset hours'' position = Inr hh
        \<and> toInt M ''offset minutes'' position = Inr mm \<longrightarrow>
        parseOffset (sign_char s # H @ '':'' @ M) position =
          (if hh < 0 \<or> 14 < hh then Inl (ParseError (OffsetHoursMustBe hh) position)
           else if mm < 0 \<or> 59 < mm then Inl (ParseError (OffsetMinutesMustBe mm) position)
           else Inr (NumericOffset s hh mm (sign_char s # H @ '':'' @ M))))
   \<and> (length D = 4 \<and> CHR '':'' \<notin> set D
        \<and> toInt (take 2 D) ''offset hours'' position = Inr hh
        \<and> toInt (drop 2 D) ''offset minutes'' position = Inr mm \<longrightarrow>
        parseOffset (sign_char s # D) position =
          (if hh < 0 \<or> 14 < hh then Inl (ParseError (OffsetHoursMustBe hh) position)
           else if mm < 0 \<or> 59 < mm then Inl (ParseError (OffsetMinutesMustBe mm) position)
           else Inr (NumericOffset s hh mm (sign_char s # D))))
   \<and> (length D = 2 \<and> CHR '':'' \<notin> set D
        \<and> toInt D ''offset hours'' position = Inr hh \<longrightarrow>
        parseOffset (sign_char s # D) position =
          (if hh < 0 \<or> 14 < hh then Inl (ParseError (OffsetHoursMustBe hh) position)
           else Inr (NumericOffset s hh 0 (sign_char s # D))))
   \<and> (list_all isDigit H \<and> H \<noteq> [] \<and> radix_val 10 H < 2 ^ 53
        \<and> list_all isDigit M \<and> M \<noteq> [] \<and> radix_val 10 M < 2 ^ 53 \<longrightarrow>
        parseOffset (sign_char s # H @ '':'' @ M) position =
          (if 14 < radix_val 10 H then
             Inl (ParseError (OffsetHoursMustBe (radix_val 10 H)) position)
           else if 59 < radix_val 10 M then
             Inl (ParseError (OffsetMinutesMustBe (radix_val 10 M)) position)
           else Inr (NumericOffset s (radix_val 10 H) (radix_val 10 M)
                       (sign_char s # H @ '':'' @ M))))
   \<and> parseOffset ''+-1:00'' position = Inl (ParseError (OffsetHoursMustBe (- 1)) position)
   \<and> parseOffset ''+05:-1'' position = Inl (ParseError (OffsetMinutesMustBe (- 1)) position)
   \<and> parseOffset ''+100:00'' position = Inl (ParseError (OffsetHoursMustBe 100) position)
   \<and> parseOffset ''+14:60'' position = Inl (ParseError (OffsetMinutesMustBe 60) position)
   \<and> parseOffset ''+1500'' position = Inl (ParseError (OffsetHoursMustBe 15) position)
   \<and> parseOffset ''+0560'' position = Inl (ParseError (OffsetMinutesMustBe 60) position)
   \<and> parseOffset ''+15'' position = Inl (ParseError (OffsetHoursMustBe 15) position)
   \<and> parseOffset ''+1459'' position = Inr (NumericOffset PlusSign 14 59 ''+1459'')
   \<and> parseOffset ''-14'' position = Inr (NumericOffset MinusSign 14 0 ''-14'')
   \<and> parseOffset ''+00:00'' position = Inr (NumericOffset PlusSign 0 0 ''+00:00'')"
proof -
  have 1: "stringifyOffset (NumericOffset PlusSign 15 0 r) = ''+15:00''"
    and 2: "stringifyOffset (NumericOffset MinusSign 15 0 r) = ''-15:00''"
    and 3: "stringifyOffset (NumericOffset PlusSign 14 0 r) = ''+14:00''"
    and 4: "stringifyOffset (NumericOffset MinusSign 12 0 r) = ''-12:00''"
    by (simp_all add: toString_two_digits digit_char_simps)
  from parseOffset_canonical [of 15 0 PlusSign r position] 1
  have a: "parseOffset ''+15:00'' position = Inl (ParseError (OffsetHoursMustBe 15) position)" by simp
  from parseOffset_canonical [of 15 0 MinusSign r position] 2
  have b: "parseOffset ''-15:00'' position = Inl (ParseError (OffsetHoursMustBe 15) position)" by simp
  from parseOffset_canonical [of 14 0 PlusSign r position] 3
  have c: "parseOffset ''+14:00'' position = Inr (NumericOffset PlusSign 14 0 ''+14:00'')" by simp
  from parseOffset_canonical [of 12 0 MinusSign r position] 4
  have d: "parseOffset ''-12:00'' position = Inr (NumericOffset MinusSign 12 0 ''-12:00'')" by simp
  note e = parseOffset_canonical [of h m s r position]
  note f = parseOffset_components [of "text" s position hh mm]
  have g: "parseOffset text position = Inr off \<longrightarrow>
        (\<exists>s' h' m'. off = NumericOffset s' h' m' text
           \<and> 0 \<le> h' \<and> h' \<le> 14 \<and> 0 \<le> m' \<and> m' \<le> 59)"
    using parseOffset_Inr [of "text" position off] by blast
  note h = parseOffset_colon [of H M position hh mm s]
  note i = parseOffset_compact [of D position hh mm s]
  note j = parseOffset_short [of D position hh s]
  have k: "parseOffset (sign_char s # H @ '':'' @ M) position =
          (if 14 < radix_val 10 H then
             Inl (ParseError (OffsetHoursMustBe (radix_val 10 H)) position)
           else if 59 < radix_val 10 M then
             Inl (ParseError (OffsetMinutesMustBe (radix_val 10 M)) position)
           else Inr (NumericOffset s (radix_val 10 H) (radix_val 10 M)
                       (sign_char s # H @ '':'' @ M)))"
    if "list_all isDigit H" "H \<noteq> []" "radix_val 10 H < 2 ^ 53"
       "list_all isDigit M" "M \<noteq> []" "radix_val 10 M < 2 ^ 53" for H M
  proof -
    have cc: "CHR '':'' \<notin> set H" "CHR '':'' \<notin> set M"
      using that(1,4) by (auto simp: list_all_iff dest: isDigit_not_colon)
    from parseOffset_colon [OF cc toInt_digits [OF that(1-3)] toInt_digits [OF that(4-6)], of s]
      radix_val_bound [OF that(1)] radix_val_bound [OF that(4)]
    show ?thesis by auto
  qed
  have l: "parseOffset ''+-1:00'' position = Inl (ParseError (OffsetHoursMustBe (- 1)) position)"
    "parseOffset ''+05:-1'' position = Inl (ParseError (OffsetMinutesMustBe (- 1)) position)"
    "parseOffset ''+100:00'' position = Inl (ParseError (OffsetHoursMustBe 100) position)"
    "parseOffset ''+14:60'' position = Inl (ParseError (OffsetMinutesMustBe 60) position)"
    "parseOffset ''+1500'' position = Inl (ParseError (OffsetHoursMustBe 15) position)"
    "parseOffset ''+0560'' position = Inl (ParseError (OffsetMinutesMustBe 60) position)"
    "parseOffset ''+15'' position = Inl (ParseError (OffsetHoursMustBe 15) position)"
    "parseOffset ''+1459'' position = Inr (NumericOffset PlusSign 14 59 ''+1459'')"
    "parseOffset ''-14'' position = Inr (NumericOffset MinusSign 14 0 ''-14'')"
    "parseOffset ''+00:00'' position = Inr (NumericOffset PlusSign 0 0 ''+00:00'')"
    by (simp_all add: offset_defs toInt_numeral toInt_minus_one isDigit_def radix_val_def
        digit_val_def Let_def)
  from a b c d e f g h i j k l show ?thesis by blast
qed

theorem offset_range_validation_witness:
  "parseOffset ''+05:30'' 0 = Inr (NumericOffset PlusSign 5 30 ''+05:30'')
   \<and> parseOffset ''+08:60'' 0 = Inl (ParseError (OffsetMinutesMustBe 60) 0)
   \<and> parseOffset ''--3:00'' 0 = Inl (ParseError (OffsetHoursMustBe (- 3)) 0)
   \<and> parseOffset ''-0930'' 0 = Inr (NumericOffset MinusSign 9 30 ''-0930'')
   \<and> parseOffset ''+16'' 0 = Inl (ParseError (OffsetHoursMustBe 16) 0)
   \<and> parseOffset ''+007:0061'' 0 = Inl (ParseError (OffsetMinutesMustBe 61) 0)"
proof -
  have 1: "stringifyOffset (NumericOffset PlusSign 5 30 []) = ''+05:30''"
    and 2: "stringifyOffset (NumericOffset PlusSign 8 60 []) = ''+08:60''"
    by (simp_all add: toString_two_digits digit_char_simps)
  have t: "toInt ''-3'' ''offset hours'' 0 = Inr (- 3)" "toInt ''00'' ''offset minutes'' 0 = Inr 0"
    "toInt ''09'' ''offset hours'' 0 = Inr 9" "toInt ''30'' ''offset minutes'' 0 = Inr 30"
    "toInt ''16'' ''offset hours'' 0 = Inr 16"
    by (simp_all add: number_defs)
  have dg: "list_all isDigit ''007''" "list_all isDigit ''0061''"
    "radix_val 10 ''007'' = 7" "radix_val 10 ''0061'' = 61"
    by (simp_all add: isDigit_def radix_val_def digit_val_def)
  from offset_range_validation [of 0 5 30 PlusSign "[]"]
  have a: "parseOffset ''+05:30'' 0 = Inr (NumericOffset PlusSign 5 30 ''+05:30'')"
    unfolding 1 by simp
  from offset_range_validation [of 0 8 60 PlusSign "[]"]
  have b: "parseOffset ''+08:60'' 0 = Inl (ParseError (OffsetMinutesMustBe 60) 0)"
    unfolding 2 by simp
  from offset_range_validation [where position = 0 and s = MinusSign and H = "''-3''"
      and M = "''00''" and hh = "- 3" and mm = 0] t
  have c: "parseOffset ''--3:00'' 0 = Inl (ParseError (OffsetHoursMustBe (- 3)) 0)"
    by simp
  from offset_range_validation [where position = 0 and s = MinusSign and D = "''0930''"
      and hh = 9 and mm = 30] t
  have d: "parseOffset ''-0930'' 0 = Inr (NumericOffset MinusSign 9 30 ''-0930'')"
    by simp
  from offset_range_validation [where position = 0 and s = PlusSign and D = "''16''"
      and hh = 16] t
  have e: "parseOffset ''+16'' 0 = Inl (ParseError (OffsetHoursMustBe 16) 0)"
    by simp
  from offset_range_validation [where position = 0 and s = PlusSign and H = "''007''"
      and M = "''0061''"] dg
  have f: "parseOffset ''+007:0061'' 0 = Inl (ParseError (OffsetMinutesMustBe 61) 0)"
    by simp
  from a b c d e f show ?thesis by simp
qed

text \<open>
  C10.  \<open>parseOffset\<close> imposes no digit count on the shape with a colon: a sign followed by
  \<open>H\<close>, a colon and \<open>M\<close> parses successfully whenever \<open>toInt\<close> reads \<open>H\<close> as an integer
  from 0 to 14 and \<open>M\<close> as an integer from 0 to 59; in particular for digit texts of any
  width, as in \<open>+8:5\<close>, which gives hours 8, minutes 5 and the raw text \<open>+8:5\<close>.
\<close>

theorem offset_colon_shape_any_width:
  "(CHR '':'' \<notin> set H \<and> CHR '':'' \<notin> set M
      \<and> toInt H ''offset hours'' position = Inr h \<and> toInt M ''offset minutes'' position = Inr m
      \<and> 0 \<le> h \<and> h \<le> 14 \<and> 0 \<le> m \<and> m \<le> 59 \<longrightarrow>
      parseOffset (sign_char s # H @ '':'' @ M) position
        = Inr (NumericOffset s h m (sign_char s # H @ '':'' @ M)))
   \<and> (list_all isDigit H \<and> H \<noteq> [] \<and> radix_val 10 H \<le> 14
      \<and> list_all isDigit M \<and> M \<noteq> [] \<and> radix_val 10 M \<le> 59 \<longrightarrow>
      parseOffset (sign_char s # H @ '':'' @ M) position
        = Inr (NumericOffset s (radix_val 10 H) (radix_val 10 M) (sign_char s # H @ '':'' @ M)))
   \<and> parseOffset ''+8:5'' position = Inr (NumericOffset PlusSign 8 5 ''+8:5'')"
proof -
  have A: "parseOffset (sign_char s # H @ '':'' @ M) position
        = Inr (NumericOffset s h m (sign_char s # H @ '':'' @ M))"
    if "CHR '':'' \<notin> set H" "CHR '':'' \<notin> set M"
       "toInt H ''offset hours'' position = Inr h" "toInt M ''offset minutes'' position = Inr m"
       "0 \<le> h" "h \<le> 14" "0 \<le> m" "m \<le> 59" for s H M h m
    using parseOffset_colon [OF that(1-4), of s] that(5-8) by simp
  have B: "parseOffset (sign_char s # H @ '':'' @ M) position
        = Inr (NumericOffset s (radix_val 10 H) (radix_val 10 M) (sign_char s # H @ '':'' @ M))"
    if "list_all isDigit H" "H \<noteq> []" "radix_val 10 H \<le> 14"
       "list_all isDigit M" "M \<noteq> []" "radix_val 10 M \<le> 59" for s H M
  proof -
    have c: "CHR '':'' \<notin> set H" "CHR '':'' \<notin> set M"
      using that(1,4) by (auto simp: list_all_iff dest: isDigit_not_colon)
    have "radix_val 10 H < 2 ^ 53" "radix_val 10 M < 2 ^ 53" using that(3,6) by simp_all
    with toInt_digits that have
      "toInt H ''offset hours'' position = Inr (radix_val 10 H)"
      "toInt M ''offset minutes'' position = Inr (radix_val 10 M)"
      by simp_all
    with A [OF c] radix_val_bound [OF that(1)] radix_val_bound [OF that(4)] that(3,6)
    show ?thesis by simp
  qed
  have C: "parseOffset ''+8:5'' position = Inr (NumericOffset PlusSign 8 5 ''+8:5'')"
    using B [of "''8''" "''5''" PlusSign] by (simp add: radix_val_def isDigit_def digit_val_def)
  from A B C show ?thesis by blast
qed

theorem offset_colon_shape_any_width_witness:
  "parseOffset ''-008:5'' 0 = Inr (NumericOffset MinusSign 8 5 ''-008:5'')"
proof -
  have "list_all isDigit ''008''" "list_all isDigit ''5''"
    by (simp_all add: isDigit_def)
  moreover have "radix_val 10 ''008'' = 8" "radix_val 10 ''5'' = 5"
    by (simp_all add: radix_val_def isDigit_def digit_val_def)
  ultimately show ?thesis
    using offset_colon_shape_any_width [of "''008''" "''5''" 0 8 5 MinusSign] by simp
qed

section \<open>The integer conversion\<close>

text \<open>
  C9.  \<open>toInt\<close> returns an integer exactly when the host reads the text as that finite
  integer, and raises \<open>ParseError\<close> (invalid integer) otherwise.  The claim that every text
  written with a decimal point is refused fails: \<open>1.0\<close> is read as 1.
\<close>


theorem toInt_decimal_point_counterexample:
  "CHR ''.'' \<in> set ''1.0'' \<and> toInt ''1.0'' ''year'' 0 = Inr 1"
  by (simp add: number_defs)

text \<open>
  C9, as amended.  \<open>toInt\<close> returns \<open>n\<close> exactly when \<open>Number\<close> of the text is the finite
  integer \<open>n\<close>, and raises the \<open>ParseError\<close> for an invalid integer, with the label, the
  text and the position, exactly when \<open>Number\<close> of the text is no finite integer.  A text of
  digits followed by \<open>.0\<close> is read exactly as the text of digits alone: a decimal point
  alone does not make \<open>toInt\<close> fail.  A text of digits of value below \<open>2^53\<close> is read as
  its value, also with a sign in front; beyond, the result is the nearest double, as for
  \<open>9007199254740993\<close>, read as \<open>9007199254740992\<close>.  \<open>1.5\<close>, \<open>NaN\<close> and \<open>Infinity\<close> are
  refused; the signed texts \<open>+5\<close> and \<open>-5\<close>, the exponent form \<open>1e5\<close> and the hexadecimal
  form \<open>0x10\<close> are accepted.
\<close>

theorem toInt_finite_integral:
  "(toInt s label position = Inr n \<longleftrightarrow> Number_of_string s = Finite (of_int n))
   \<and> (toInt s label position = Inl e \<longrightarrow> e = ParseError (InvalidInteger label s) position)
   \<and> (toInt s label position = Inl (ParseError (InvalidInteger label s) position)
        \<longleftrightarrow> \<not> (\<exists>k. Number_of_string s = Finite (of_int k)))
   \<and> (list_all isDigit ds \<and> ds \<noteq> [] \<longrightarrow>
        (toInt (ds @ ''.0'') label position = Inr n \<longleftrightarrow> toInt ds label position = Inr n))
   \<and> (list_all isDigit ds \<and> ds \<noteq> [] \<and> radix_val 10 ds < 2 ^ 53 \<longrightarrow>
        toInt ds label position = Inr (radix_val 10 ds)
        \<and> toInt (ds @ ''.0'') label position = Inr (radix_val 10 ds)
        \<and> toInt (CHR ''+'' # ds) label position = Inr (radix_val 10 ds)
        \<and> toInt (CHR ''-'' # ds) label position = Inr (- radix_val 10 ds))
   \<and> toInt ''9007199254740993'' label position = Inr 9007199254740992
   \<and> toInt ''9007199254740993.0'' label position = Inr 9007199254740992
   \<and> toInt ''1.5'' label position = Inl (ParseError (InvalidInteger label ''1.5'') position)
   \<and> toInt ''NaN'' label position = Inl (ParseError (InvalidInteger label ''NaN'') position)
   \<and> toInt ''Infinity'' label position
       = Inl (ParseError (InvalidInteger label ''Infinity'') position)
   \<and> toInt ''+5'' label position = Inr 5
   \<and> toInt ''-5'' label position = Inr (- 5)
   \<and> toInt ''1e5'' label position = Inr 100000
   \<and> toInt ''0x10'' label position = Inr 16"
proof -
  have 1: "toInt s label position = Inr n \<longleftrightarrow> Number_of_string s = Finite (of_int n)"
    by (cases "Number_of_string s") (auto simp: toInt_def)
  have 2: "toInt s label position = Inl e \<longrightarrow> e = ParseError (InvalidInteger label s) position"
    by (cases "Number_of_string s") (auto simp: toInt_def split: if_splits)
  have c2: "toInt s label position = Inl (ParseError (InvalidInteger label s) position)
        \<longleftrightarrow> \<not> (\<exists>k. Number_of_string s = Finite (of_int k))"
  proof (cases "Number_of_string s")
    case (Finite x)
    show ?thesis
    proof (cases "of_int \<lfloor>x\<rfloor> = x")
      case True
      have "toInt s label position = Inr \<lfloor>x\<rfloor>"
        by (simp only: toInt_def Finite jsnum.case True simp_thms if_True)
      moreover have "Number_of_string s = Finite (of_int \<lfloor>x\<rfloor>)"
        by (simp only: Finite True)
      then have "\<exists>k. Number_of_string s = Finite (of_int k)" by (rule exI)
      ultimately show ?thesis by simp
    next
      case False
      then have "x \<noteq> of_int k" for k by auto
      with False Finite show ?thesis by (auto simp: toInt_def)
    qed
  qed (simp_all add: toInt_def)
  have 3: "list_all isDigit ds \<and> ds \<noteq> [] \<longrightarrow>
        (toInt (ds @ ''.0'') label position = Inr n \<longleftrightarrow> toInt ds label position = Inr n)"
    using Number_of_string_digits_any [of ds] Number_of_string_point_zero [of ds]
    by (cases "to_double (of_int (radix_val 10 ds))") (auto simp: toInt_def)
  have c3: "list_all isDigit ds \<and> ds \<noteq> [] \<and> radix_val 10 ds < 2 ^ 53 \<longrightarrow>
        toInt ds label position = Inr (radix_val 10 ds)
        \<and> toInt (ds @ ''.0'') label position = Inr (radix_val 10 ds)
        \<and> toInt (CHR ''+'' # ds) label position = Inr (radix_val 10 ds)
        \<and> toInt (CHR ''-'' # ds) label position = Inr (- radix_val 10 ds)"
  proof (intro impI, elim conjE)
    assume a: "list_all isDigit ds" "ds \<noteq> []" "radix_val 10 ds < 2 ^ 53"
    from radix_val_bound [OF a(1)] a(3) have b: "\<bar>radix_val 10 ds\<bar> < 2 ^ 53" "\<bar>- radix_val 10 ds\<bar> < 2 ^ 53"
      by simp_all
    note td = to_double_of_int_abs [OF b(1)] to_double_of_int_abs [OF b(2)]
    from td(2) have tdm: "to_double (- rat_of_int (radix_val 10 ds)) = Finite (of_int (- radix_val 10 ds))"
      by simp
    show "toInt ds label position = Inr (radix_val 10 ds)
        \<and> toInt (ds @ ''.0'') label position = Inr (radix_val 10 ds)
        \<and> toInt (CHR ''+'' # ds) label position = Inr (radix_val 10 ds)
        \<and> toInt (CHR ''-'' # ds) label position = Inr (- radix_val 10 ds)"
      unfolding toInt_def Number_of_string_digits_any [OF a(1,2)]
        Number_of_string_point_zero [OF a(1,2)] Number_of_string_signed [OF a(1,2)] td(1) tdm
      by simp
  qed
  note c4 = toInt_above_safe [of label position]
  have 4: "toInt ''1.5'' label position = Inl (ParseError (InvalidInteger label ''1.5'') position)"
    by (simp add: number_defs to_double_three_halves floor_three_halves)
  have 5: "toInt ''NaN'' label position = Inl (ParseError (InvalidInteger label ''NaN'') position)"
    by (simp add: number_defs)
  have 6: "toInt ''Infinity'' label position
       = Inl (ParseError (InvalidInteger label ''Infinity'') position)"
    by (simp add: number_defs)
  have 7: "toInt ''+5'' label position = Inr 5" by (simp add: number_defs)
  have 8: "toInt ''-5'' label position = Inr (- 5)" by (simp add: number_defs)
  have 9: "toInt ''1e5'' label position = Inr 100000" by (simp add: number_defs)
  have 10: "toInt ''0x10'' label position = Inr 16" by (simp add: number_defs)
  from 1 2 c2 3 c3 c4 4 5 6 7 8 9 10 show ?thesis by blast
qed

theorem toInt_finite_integral_witness:
  "toInt ''1.5'' ''day'' 3 = Inl (ParseError (InvalidInteger ''day'' ''1.5'') 3)
   \<and> list_all isDigit ''42'' \<and> ''42'' \<noteq> [] \<and> radix_val 10 ''42'' < 2 ^ 53
   \<and> toInt ''42'' ''day'' 3 = Inr 42 \<and> toInt ''42.0'' ''day'' 3 = Inr 42
   \<and> toInt ''+42'' ''day'' 3 = Inr 42 \<and> toInt ''-42'' ''day'' 3 = Inr (- 42)"
proof -
  have a: "list_all isDigit ''42''" "radix_val 10 ''42'' = 42"
    by (simp_all add: isDigit_def radix_val_def digit_val_def)
  from toInt_finite_integral [of "''1.5''" "''day''" 3 0 "ParseError (InvalidInteger ''day'' ''1.5'') 3" "''42''"] a
  show ?thesis by simp
qed

(* C8 *)

section \<open>Offsets in the serializer\<close>

text \<open>
  C5.  \<open>stringifyOffset\<close> prints a numeric offset as sign, two digits of hours, a colon and
  two digits of minutes, whatever raw text the node holds: the result does not depend on
  \<open>raw\<close>; for hours and minutes from 0 to 99 (which covers the range 0 to 14 and 0 to 59 of
  the data model) it is exactly these six characters; every offset that \<open>parseOffset\<close>
  returns is printed in this shape.  So \<open>2025-01-12T10:00:00+0530\<close> is printed back as
  \<open>2025-01-12T10:00:00+05:30\<close>, and \<open>+09\<close> as \<open>+09:00\<close>.
\<close>


theorem stringifyOffset_canonical_shape:
  "stringifyOffset (NumericOffset s h m raw) = stringifyOffset (NumericOffset s h m raw')
   \<and> (0 \<le> h \<and> h \<le> 99 \<and> 0 \<le> m \<and> m \<le> 99 \<longrightarrow>
        stringifyOffset (NumericOffset s h m raw)
          = [sign_char s, digit_char (h div 10), digit_char (h mod 10), CHR '':'',
             digit_char (m div 10), digit_char (m mod 10)])
   \<and> (parseOffset text position = Inr off \<longrightarrow>
        (\<exists>s' h' m'. off = NumericOffset s' h' m' text
           \<and> stringifyOffset off
               = [sign_char s', digit_char (h' div 10), digit_char (h' mod 10), CHR '':'',
                  digit_char (m' div 10), digit_char (m' mod 10)]))
   \<and> and_then (parseTemporal ''2025-01-12T10:00:00+0530'') (\<lambda>ast. Inr (stringifyTemporal ast))
        = Inr ''2025-01-12T10:00:00+05:30''
   \<and> and_then (parseTemporal ''2025-01-12T10:00:00+09'') (\<lambda>ast. Inr (stringifyTemporal ast))
        = Inr ''2025-01-12T10:00:00+09:00''
   \<and> and_then (parseOffset ''+09'' position) (\<lambda>off. Inr (stringifyOffset off)) = Inr ''+09:00''"
proof -
  have 1: "stringifyOffset (NumericOffset s h m raw) = stringifyOffset (NumericOffset s h m raw')"
    by simp
  have 2: "stringifyOffset (NumericOffset s h m raw)
          = [sign_char s, digit_char (h div 10), digit_char (h mod 10), CHR '':'',
             digit_char (m div 10), digit_char (m mod 10)]"
    if "0 \<le> h" "h \<le> 99" "0 \<le> m" "m \<le> 99" for s h m raw
    using that by (simp add: toString_two_digits)
  have 3: "\<exists>s' h' m'. off = NumericOffset s' h' m' text
           \<and> stringifyOffset off
               = [sign_char s', digit_char (h' div 10), digit_char (h' mod 10), CHR '':'',
                  digit_char (m' div 10), digit_char (m' mod 10)]"
    if "parseOffset text position = Inr off"
  proof -
    from parseOffset_Inr [OF that] obtain s' h' m' where
      o: "off = NumericOffset s' h' m' text" and b: "0 \<le> h'" "h' \<le> 14" "0 \<le> m'" "m' \<le> 59"
      by blast
    from b have "h' \<le> 99" "m' \<le> 99" by simp_all
    with 2 [of h' m' s' "text"] b o show ?thesis by blast
  qed
  have 4: "and_then (parseTemporal ''2025-01-12T10:00:00+0530'') (\<lambda>ast. Inr (stringifyTemporal ast))
        = Inr ''2025-01-12T10:00:00+05:30''"
    by (simp add: parse_eval offset_defs stringify_defs)
  have 5: "and_then (parseTemporal ''2025-01-12T10:00:00+09'') (\<lambda>ast. Inr (stringifyTemporal ast))
        = Inr ''2025-01-12T10:00:00+09:00''"
    by (simp add: parse_eval offset_defs stringify_defs)
  have 6: "and_then (parseOffset ''+09'' position) (\<lambda>off. Inr (stringifyOffset off)) = Inr ''+09:00''"
    by (simp add: parse_eval offset_defs stringify_defs)
  from 1 2 3 4 5 6 show ?thesis by blast
qed

theorem stringifyOffset_canonical_shape_witness:
  "stringifyOffset (NumericOffset PlusSign 5 30 ''+0530'') = ''+05:30''
   \<and> parseOffset ''+0530'' 0 = Inr (NumericOffset PlusSign 5 30 ''+0530'')"
proof -
  have p: "parseOffset ''+0530'' 0 = Inr (NumericOffset PlusSign 5 30 ''+0530'')"
    by (simp add: parse_eval offset_defs)
  from stringifyOffset_canonical_shape [of PlusSign 5 30 "''+0530''" "[]" "''+0530''" 0
      "NumericOffset PlusSign 5 30 ''+0530''"] p
  show ?thesis by (simp add: digit_char_simps)
qed



section \<open>Fractions of a second\<close>

text \<open>
  C1.  The claim: a date-time whose seconds are followed by a fraction after a comma, as in
  \<open>2025-01-12T10:30:45,123\<close>, parses like the same text with a dot, the digits of the
  fraction kept as they are.  \<open>parseTime\<close> tries only the token \<open>Dot\<close> after the seconds, so
  the comma stays unread and the parse ends on it: \<open>parseTemporal\<close> raises
  \<open>Expected EOF but got Comma\<close> at token 11, while the text with the dot gives the fraction
  \<open>123\<close>.
\<close>


theorem comma_fraction_rejected:
  "parseTemporal ''2025-01-12T10:30:45,123''
     = Inl (ParseError (Expected (Tok EOF) (Tok Comma)) 11)
   \<and> parseTemporal ''2025-01-12T10:30:45.123''
     = Inr (Value (DateTime
         \<lparr>dt_date = \<lparr>date_year = 2025, date_month = Some 1, date_day = Some 12\<rparr>,
          dt_time = Some \<lparr>time_hour = 10, time_minute = 30, time_second = Some 45,
                          time_fraction = Some ''123''\<rparr>,
          dt_offset = None, dt_timeZone = None, dt_annotations = []\<rparr>))"
  by (simp add: parseTemporal_def lex_defs combine_defs parser_defs toInt_numeral radix_val_def
        digit_val_def)

section \<open>The offset combiner applied twice\<close>

text \<open>
  One step of the loop of \<open>combineTimezoneOffsets\<close>, seen from outside: \<open>fuseAt\<close> gives the
  token that the step pushes and the tokens that it leaves; \<open>produced\<close> is what the loop
  appends to \<open>out\<close>.
\<close>

definition isSignTok :: "AnyToken \<Rightarrow> bool" where
  "isSignTok t = (any_type t = Tok Plus \<or> any_type t = Tok Dash)"

definition shape1 :: "AnyToken list \<Rightarrow> bool" where
  "shape1 tokens =
     (peekType tokens 1 = Some (Tok Number) \<and> peekType tokens 2 = Some (Tok Colon)
      \<and> peekType tokens 3 = Some (Tok Number))"

definition shape2 :: "AnyToken list \<Rightarrow> bool" where
  "shape2 tokens =
     (peekType tokens 1 = Some (Tok Number)
      \<and> (length (any_value (tokens ! 1)) = 2 \<or> length (any_value (tokens ! 1)) = 4))"

definition fuseAt :: "AnyToken \<Rightarrow> AnyToken list \<Rightarrow> AnyToken list \<Rightarrow> AnyToken \<times> AnyToken list" where
  "fuseAt t rest out =
     (if isSignTok t \<and> couldBeTzOffset out \<and> shape1 (t # rest) then
        (Combined \<lparr>ctok_value = any_value t @ any_value ((t # rest) ! 1) @ '':''
                               @ any_value ((t # rest) ! 3),
                   ctok_tokens = map plain (take 4 (t # rest)),
                   ctok_start = any_start t,
                   ctok_end = any_end ((t # rest) ! 3)\<rparr>, drop 3 rest)
      else if isSignTok t \<and> couldBeTzOffset out \<and> shape2 (t # rest) then
        (Combined \<lparr>ctok_value = any_value t @ any_value ((t # rest) ! 1),
                   ctok_tokens = map plain (take 2 (t # rest)),
                   ctok_start = any_start t,
                   ctok_end = any_end ((t # rest) ! 1)\<rparr>, drop 1 rest)
      else (t, rest))"

definition produced :: "AnyToken list \<Rightarrow> AnyToken list \<Rightarrow> AnyToken list" where
  "produced tokens out = drop (length out) (combineLoop tokens out)"

lemma combineLoop_step:
  "combineLoop (t # rest) out = combineLoop (snd (fuseAt t rest out)) (out @ [fst (fuseAt t rest out)])"
proof (cases "isSignTok t \<and> couldBeTzOffset out")
  case False
  then show ?thesis
    by (auto simp: fuseAt_def isSignTok_def Let_def)
next
  case c: True
  show ?thesis
  proof (cases "shape1 (t # rest)")
    case True
    with c show ?thesis
      by (auto simp: fuseAt_def isSignTok_def shape1_def Let_def)
  next
    case n1: False
    show ?thesis
    proof (cases "shape2 (t # rest)")
      case True
      with c n1 show ?thesis
        by (auto simp: fuseAt_def isSignTok_def shape1_def shape2_def Let_def)
    next
      case False
      with c n1 show ?thesis
        by (auto simp: fuseAt_def isSignTok_def shape1_def shape2_def Let_def)
    qed
  qed
qed

lemma fuseAt_shorter: "length (snd (fuseAt t rest out)) \<le> length rest"
  by (simp add: fuseAt_def)

lemma fuseAt_type:
  "fuseAt t rest out = (t, rest)
   \<or> any_type (fst (fuseAt t rest out)) = Comb TZOffset \<and> isSignTok t"
  by (simp add: fuseAt_def)

lemma fuseAt_not_sign: "\<not> isSignTok t \<Longrightarrow> fuseAt t rest out = (t, rest)"
  by (simp add: fuseAt_def)

lemma fuseAt_no_context: "\<not> couldBeTzOffset out \<Longrightarrow> fuseAt t rest out = (t, rest)"
  by (simp add: fuseAt_def)

lemma combineLoop_prefix: "\<exists>N. combineLoop tokens out = out @ N"
proof (induction tokens arbitrary: out rule: length_induct)
  case (1 tokens)
  show ?case
  proof (cases tokens)
    case Nil
    then show ?thesis by simp
  next
    case (Cons t rest)
    let ?d = "fuseAt t rest out"
    have "length (snd ?d) < length tokens"
      using fuseAt_shorter [of t rest out] Cons by simp
    with 1 obtain N where "combineLoop (snd ?d) (out @ [fst ?d]) = (out @ [fst ?d]) @ N"
      by blast
    with Cons show ?thesis
      by (simp only: combineLoop_step) simp
  qed
qed

lemma combineLoop_produced: "combineLoop tokens out = out @ produced tokens out"
  using combineLoop_prefix [of tokens out] by (auto simp: produced_def)

lemma produced_Nil [simp]: "produced [] out = []"
  by (simp add: produced_def)

lemma produced_Cons:
  "produced (t # rest) out
     = fst (fuseAt t rest out) # produced (snd (fuseAt t rest out)) (out @ [fst (fuseAt t rest out)])"
proof -
  let ?d = "fuseAt t rest out"
  have "combineLoop (t # rest) out = (out @ [fst ?d]) @ produced (snd ?d) (out @ [fst ?d])"
    by (simp only: combineLoop_step combineLoop_produced [of "snd ?d"])
  then show ?thesis by (simp add: produced_def)
qed

lemma couldBeTzOffset_after_sign: "isSignTok t \<Longrightarrow> \<not> couldBeTzOffset (out @ [t])"
  by (auto simp: couldBeTzOffset_def isSignTok_def)

lemma couldBeTzOffset_after_sign_number:
  "isSignTok t \<Longrightarrow> \<not> couldBeTzOffset (out @ [t, r])"
  by (auto simp: couldBeTzOffset_def isSignTok_def Let_def nth_append)

lemma produced_head_type:
  assumes "produced (r # rest) out = x # N"
  shows "any_type x = any_type r \<or> any_type x = Comb TZOffset \<and> isSignTok r"
proof -
  from assms have "x = fst (fuseAt r rest out)" by (simp add: produced_Cons)
  with fuseAt_type [of r rest out] show ?thesis by auto
qed

text \<open>
  After a sign that was left alone, the tokens that follow come out with the same types and
  values in the three places that the shapes inspect.
\<close>

lemma shapes_after_sign:
  assumes "isSignTok t"
  shows "shape1 (t # produced rest (out @ [t])) = shape1 (t # rest)"
    and "shape2 (t # produced rest (out @ [t])) = shape2 (t # rest)"
proof -
  note nc = couldBeTzOffset_after_sign [OF assms, of out]
  have A: "shape1 (t # produced rest (out @ [t])) = shape1 (t # rest)
         \<and> shape2 (t # produced rest (out @ [t])) = shape2 (t # rest)"
  proof (cases rest)
    case Nil
    then show ?thesis by simp
  next
    case (Cons r rest1)
    have p1: "produced (r # rest1) (out @ [t]) = r # produced rest1 (out @ [t, r])"
      using nc by (simp add: produced_Cons fuseAt_no_context)
    have s2: "shape2 (t # produced (r # rest1) (out @ [t])) = shape2 (t # r # rest1)"
      unfolding p1 by (simp add: shape2_def peekType_def)
    have s1: "shape1 (t # produced (r # rest1) (out @ [t])) = shape1 (t # r # rest1)"
    proof (cases rest1)
      case Nil
      show ?thesis
        unfolding Nil by (simp add: p1 [unfolded Nil] shape1_def peekType_def)
    next
      case c2: (Cons r2 rest2)
      have p2: "produced (r2 # rest2) (out @ [t, r]) = r2 # produced rest2 (out @ [t, r, r2])"
        using couldBeTzOffset_after_sign_number [OF assms, of out r]
        by (simp add: produced_Cons fuseAt_no_context)
      show ?thesis
      proof (cases rest2)
        case Nil
        show ?thesis
          unfolding c2 Nil
          by (simp add: p1 [unfolded c2 Nil] p2 [unfolded Nil] shape1_def peekType_def)
      next
        case c3: (Cons r3 rest3)
        obtain x N where p3: "produced (r3 # rest3) (out @ [t, r, r2]) = x # N"
          by (simp add: produced_Cons)
        from produced_head_type [OF p3]
        have "any_type x = any_type r3 \<or> any_type x = Comb TZOffset \<and> isSignTok r3" .
        then have "(any_type x = Tok Number) = (any_type r3 = Tok Number)"
          by (auto simp: isSignTok_def)
        then show ?thesis
          unfolding c2 c3
          by (simp add: p1 [unfolded c2 c3] p2 [unfolded c3] p3 shape1_def peekType_def)
      qed
    qed
    from s1 s2 show ?thesis unfolding Cons by simp
  qed
  from A show "shape1 (t # produced rest (out @ [t])) = shape1 (t # rest)" by simp
  from A show "shape2 (t # produced rest (out @ [t])) = shape2 (t # rest)" by simp
qed

lemma fuseAt_again:
  "fuseAt (fst (fuseAt t rest out))
     (produced (snd (fuseAt t rest out)) (out @ [fst (fuseAt t rest out)])) out
   = (fst (fuseAt t rest out), produced (snd (fuseAt t rest out)) (out @ [fst (fuseAt t rest out)]))"
proof (cases "isSignTok t \<and> couldBeTzOffset out")
  case False
  then show ?thesis by (auto simp: fuseAt_def)
next
  case True
  show ?thesis
  proof (cases "shape1 (t # rest) \<or> shape2 (t # rest)")
    case True
    then have "any_type (fst (fuseAt t rest out)) = Comb TZOffset"
      using \<open>isSignTok t \<and> couldBeTzOffset out\<close> by (auto simp: fuseAt_def)
    then have "\<not> isSignTok (fst (fuseAt t rest out))" by (simp add: isSignTok_def)
    then show ?thesis by (rule fuseAt_not_sign)
  next
    case False
    with True have d: "fuseAt t rest out = (t, rest)" by (simp add: fuseAt_def)
    from True shapes_after_sign [of t rest out] False
    show ?thesis by (simp add: d fuseAt_def)
  qed
qed

lemma combineLoop_produced_again:
  "combineLoop (produced tokens out) out = combineLoop tokens out"
proof (induction tokens arbitrary: out rule: length_induct)
  case (1 tokens)
  show ?case
  proof (cases tokens)
    case Nil
    then show ?thesis by simp
  next
    case (Cons t rest)
    let ?x = "fst (fuseAt t rest out)" and ?r = "snd (fuseAt t rest out)"
    have "length ?r < length tokens"
      using fuseAt_shorter [of t rest out] Cons by simp
    with 1 have ih: "combineLoop (produced ?r (out @ [?x])) (out @ [?x]) = combineLoop ?r (out @ [?x])"
      by blast
    have "combineLoop (produced tokens out) out = combineLoop (?x # produced ?r (out @ [?x])) out"
      by (simp add: Cons produced_Cons)
    also have "\<dots> = combineLoop (produced ?r (out @ [?x])) (out @ [?x])"
      by (simp only: combineLoop_step [of ?x] fuseAt_again) simp
    also have "\<dots> = combineLoop tokens out"
      by (simp only: ih Cons combineLoop_step [of t rest out])
    finally show ?thesis .
  qed
qed

text \<open>
  C4.  The offset combiner is idempotent: for every sequence of tokens, plain or already
  combined, combining the result of \<open>combineTimezoneOffsets\<close> again gives the same sequence.
\<close>

theorem combineTimezoneOffsets_idempotent:
  "combineTimezoneOffsets (combineTimezoneOffsets toks) = combineTimezoneOffsets toks"
proof -
  have "produced toks [] = combineLoop toks []"
    by (simp add: produced_def)
  with combineLoop_produced_again [of toks "[]"] show ?thesis
    by (simp add: combineTimezoneOffsets_def)
qed

section \<open>Bracket groups of a date-time, as the specification words them\<close>











section \<open>Accumulation in durations\<close>

text \<open>The tokens of two numbers, each followed by the same unit letter.\<close>

definition pairTokens :: "nat \<Rightarrow> string \<Rightarrow> char \<Rightarrow> string \<Rightarrow> Token list" where
  "pairTokens i a u b =
     [\<lparr>tok_type = Number, tok_value = a, tok_start = i, tok_end = i + length a\<rparr>,
      \<lparr>tok_type = Ident, tok_value = [u], tok_start = i + length a,
        tok_end = i + length a + 1\<rparr>,
      \<lparr>tok_type = Number, tok_value = b, tok_start = i + length a + 1,
        tok_end = i + length a + 1 + length b\<rparr>,
      \<lparr>tok_type = Ident, tok_value = [u], tok_start = i + length a + 1 + length b,
        tok_end = i + length a + 1 + length b + 1\<rparr>,
      \<lparr>tok_type = EOF, tok_value = [], tok_start = i + length a + 1 + length b + 1,
        tok_end = i + length a + 1 + length b + 1\<rparr>]"

lemma lex_two_pairs:
  assumes a: "list_all isDigit a" "a \<noteq> []" and b: "list_all isDigit b" "b \<noteq> []"
    and u: "isAlpha u" "u \<noteq> CHR ''T''" "u \<noteq> CHR ''Z''"
  shows "lexLoop (a @ u # b @ [u]) i toks = Inr (toks @ pairTokens i a u b)"
proof -
  note nd = isAlpha_not_digit [OF u(1)]
  from b have "isDigit (hd b)" by (cases b) auto
  then have nb: "\<not> isAlpha (hd b)" by (rule isDigit_not_alpha)
  have 1: "lexLoop (a @ u # b @ [u]) i toks
        = lexLoop (u # b @ [u]) (i + length a) (emit toks Number i (i + length a) a)"
    by (rule lexLoop_digits) (use a nd in simp_all)
  have 2: "lexLoop (u # b @ [u]) j t = lexLoop (b @ [u]) (j + 1) (emit t Ident j (j + 1) [u])"
    for j t
    by (rule lexLoop_letter) (use u b nb in \<open>simp_all add: hd_append\<close>)
  have 3: "lexLoop (b @ [u]) j t = lexLoop [u] (j + length b) (emit t Number j (j + length b) b)"
    for j t
    by (rule lexLoop_digits) (use b nd in simp_all)
  have 4: "lexLoop [u] j t = Inr (emit (emit t Ident j (j + 1) [u]) EOF (j + 1) (j + 1) [])"
    for j t
    using lexLoop_letter [of u "[]" j t] u by simp
  show ?thesis
    unfolding 1 2 3 4 by (simp add: emit_def pairTokens_def)
qed

lemma lex_date_pairs:
  assumes a: "list_all isDigit a" "a \<noteq> []" and b: "list_all isDigit b" "b \<noteq> []"
    and u: "isAlpha u" "u \<noteq> CHR ''T''" "u \<noteq> CHR ''Z''"
  shows "lexTemporal (''P'' @ a @ u # b @ [u])
           = Inr (\<lparr>tok_type = Ident, tok_value = ''P'', tok_start = 0, tok_end = 1\<rparr>
                  # pairTokens 1 a u b)"
proof -
  from a have "isDigit (hd a)" by (cases a) auto
  then have na: "\<not> isAlpha (hd a)" by (rule isDigit_not_alpha)
  have "lexLoop (CHR ''P'' # a @ u # b @ [u]) 0 []
          = lexLoop (a @ u # b @ [u]) (0 + 1) (emit [] Ident 0 (0 + 1) ''P'')"
    by (rule lexLoop_letter) (use a na in \<open>simp_all add: isAlpha_def hd_append\<close>)
  then show ?thesis
    by (simp add: lexTemporal_def lex_two_pairs [OF a b u] emit_def)
qed

lemma lex_time_pairs:
  assumes a: "list_all isDigit a" "a \<noteq> []" and b: "list_all isDigit b" "b \<noteq> []"
    and u: "isAlpha u" "u \<noteq> CHR ''T''" "u \<noteq> CHR ''Z''"
  shows "lexTemporal (''PT'' @ a @ u # b @ [u])
           = Inr (\<lparr>tok_type = Ident, tok_value = ''P'', tok_start = 0, tok_end = 1\<rparr>
                  # \<lparr>tok_type = T, tok_value = ''T'', tok_start = 1, tok_end = 2\<rparr>
                  # pairTokens 2 a u b)"
proof -
  have "lexLoop (CHR ''P'' # CHR ''T'' # a @ u # b @ [u]) 0 []
          = lexLoop (CHR ''T'' # a @ u # b @ [u]) (0 + 1) (emit [] Ident 0 (0 + 1) ''P'')"
    by (rule lexLoop_letter) (simp_all add: isAlpha_def)
  then show ?thesis
    by (simp add: lexTemporal_def lexLoop_T lex_two_pairs [OF a b u] emit_def pairTokens_def
          del: lexLoop.simps)
qed

lemmas duration_defs = Parser_parseTemporal_def parseValueOrNull_def parseDuration_def
  durationStep_def eat_def tryEat_def atTok_def peek_def eof_def advance_def
  durationLoop.simps durationBrackets.simps combine_defs pairTokens_def

lemma parse_date_pairs:
  assumes a: "list_all isDigit a" "a \<noteq> []" "length a \<le> 15"
    and b: "list_all isDigit b" "b \<noteq> []" "length b \<le> 15"
    and u: "isAlpha u" "u \<noteq> CHR ''T''" "u \<noteq> CHR ''Z''"
    and d1: "\<And>pos. addUnit False [u] (radix_val 10 a) None emptyDuration pos = Inr d1"
    and d2: "\<And>pos. addUnit False [u] (radix_val 10 b) None d1 pos = Inr d2"
  shows "parseTemporal (''P'' @ a @ u # b @ [u])
           = Inr (Value (Duration (d2\<lparr>dur_raw := ''P'' @ a @ u # b @ [u],
                                       dur_annotations := []\<rparr>)))"
  unfolding parseTemporal_def lex_date_pairs [OF a(1,2) b(1,2) u]
  using a b by (simp add: duration_defs toInt_numeral d1 d2)

lemma parse_time_pairs:
  assumes a: "list_all isDigit a" "a \<noteq> []" "length a \<le> 15"
    and b: "list_all isDigit b" "b \<noteq> []" "length b \<le> 15"
    and u: "isAlpha u" "u \<noteq> CHR ''T''" "u \<noteq> CHR ''Z''"
    and d1: "\<And>pos. addUnit True [u] (radix_val 10 a) None emptyDuration pos = Inr d1"
    and d2: "\<And>pos. addUnit True [u] (radix_val 10 b) None d1 pos = Inr d2"
  shows "parseTemporal (''PT'' @ a @ u # b @ [u])
           = Inr (Value (Duration (d2\<lparr>dur_raw := ''PT'' @ a @ u # b @ [u],
                                       dur_annotations := []\<rparr>)))"
  unfolding parseTemporal_def lex_time_pairs [OF a(1,2) b(1,2) u]
  using a b by (simp add: duration_defs toInt_numeral d1 d2)

lemma js_add_small:
  assumes "0 \<le> x" and "x < 10 ^ 15" and "0 \<le> y" and "y < 10 ^ 15"
  shows "js_add (Finite 0) (Finite (of_int x)) = Finite (of_int x)"
    and "js_add (Finite (of_int x)) (Finite (of_int y)) = Finite (of_int (x + y))"
proof -
  have "\<bar>x\<bar> < 2 ^ 53" "\<bar>x + y\<bar> < 2 ^ 53" using assms by simp_all
  from to_double_of_int_abs [OF this(1)] to_double_of_int_abs [OF this(2)]
  show "js_add (Finite 0) (Finite (of_int x)) = Finite (of_int x)"
    and "js_add (Finite (of_int x)) (Finite (of_int y)) = Finite (of_int (x + y))"
    by simp_all
qed

lemma radix_val_15:
  assumes "list_all isDigit ds" and "length ds \<le> 15"
  shows "0 \<le> radix_val 10 ds" and "radix_val 10 ds < 10 ^ 15"
proof -
  from radix_val_bound [OF assms(1)] show "0 \<le> radix_val 10 ds" by simp
  have "radix_val 10 ds < 10 ^ length ds" using radix_val_bound [OF assms(1)] by simp
  also have "\<dots> \<le> (10::int) ^ 15" using assms(2) by (intro power_increasing) simp_all
  finally show "radix_val 10 ds < 10 ^ 15" .
qed


lemma to_double_safe_bound: "to_double 9007199254740992 = Finite 9007199254740992"
  by code_simp

lemma toInt_safe_bound: "toInt ''9007199254740992'' label position = Inr 9007199254740992"
proof -
  have d: "list_all isDigit ''9007199254740992''" by (simp add: isDigit_def)
  have v: "radix_val 10 ''9007199254740992'' = 9007199254740992"
    by (simp add: radix_val_def digit_val_def isDigit_def)
  show ?thesis
    using Number_of_string_digits_any [OF d]
    by (simp add: toInt_def v to_double_safe_bound)
qed

lemma durationStep_number_unit:
  assumes "atTok p (Tok Number)" and "atTok (advance p) (Tok Ident)"
    and "toInt (any_value (peek p)) ''duration number'' (p_i p + 2) = Inr n"
    and "addUnit inTime (any_value (peek (advance p))) n None dur (p_i p + 2) = Inr dur'"
  shows "durationStep p inTime dur rawParts =
           Inr (Continue (advance (advance p), inTime, dur',
                  rawParts @ [any_value (peek p), any_value (peek (advance p))]))"
  using assms
  by (simp add: durationStep_def tryEat_def eat_def atTok_def advance_def Let_def)

lemma durationStep_T:
  assumes "atTok p (Tok T)" and "Suc (p_i p) < length (p_toks p)"
  shows "durationStep p inTime dur rawParts =
           Inr (Continue (advance p, True, dur, rawParts @ [''T'']))"
  using assms by (simp add: durationStep_def tryEat_def)

lemma two_pairs_accumulate:
  assumes a: "list_all isDigit a" "a \<noteq> []" "length a \<le> 15"
    and b: "list_all isDigit b" "b \<noteq> []" "length b \<le> 15"
  shows "parseTemporal (''P'' @ a @ ''Y'' @ b @ ''Y'')
       = Inr (Value (Duration (emptyDuration
           \<lparr>dur_years := Some (Finite (of_int (radix_val 10 a + radix_val 10 b))),
            dur_raw := ''P'' @ a @ ''Y'' @ b @ ''Y''\<rparr>)))"
    and "parseTemporal (''P'' @ a @ ''M'' @ b @ ''M'')
       = Inr (Value (Duration (emptyDuration
           \<lparr>dur_months := Some (Finite (of_int (radix_val 10 a + radix_val 10 b))),
            dur_raw := ''P'' @ a @ ''M'' @ b @ ''M''\<rparr>)))"
    and "parseTemporal (''P'' @ a @ ''W'' @ b @ ''W'')
       = Inr (Value (Duration (emptyDuration
           \<lparr>dur_weeks := Some (Finite (of_int (radix_val 10 a + radix_val 10 b))),
            dur_raw := ''P'' @ a @ ''W'' @ b @ ''W''\<rparr>)))"
    and "parseTemporal (''P'' @ a @ ''D'' @ b @ ''D'')
       = Inr (Value (Duration (emptyDuration
           \<lparr>dur_days := Some (Finite (of_int (radix_val 10 a + radix_val 10 b))),
            dur_raw := ''P'' @ a @ ''D'' @ b @ ''D''\<rparr>)))"
    and "parseTemporal (''PT'' @ a @ ''H'' @ b @ ''H'')
       = Inr (Value (Duration (emptyDuration
           \<lparr>dur_hours := Some (Finite (of_int (radix_val 10 a + radix_val 10 b))),
            dur_raw := ''PT'' @ a @ ''H'' @ b @ ''H''\<rparr>)))"
    and "parseTemporal (''PT'' @ a @ ''M'' @ b @ ''M'')
       = Inr (Value (Duration (emptyDuration
           \<lparr>dur_minutes := Some (Finite (of_int (radix_val 10 a + radix_val 10 b))),
            dur_raw := ''PT'' @ a @ ''M'' @ b @ ''M''\<rparr>)))"
    and "parseTemporal (''PT'' @ a @ ''S'' @ b @ ''S'')
       = Inr (Value (Duration (emptyDuration
           \<lparr>dur_seconds := Some (Finite (of_int (radix_val 10 a + radix_val 10 b))),
            dur_raw := ''PT'' @ a @ ''S'' @ b @ ''S''\<rparr>)))"
proof -
  note j = js_add_small [OF radix_val_15 [OF a(1,3)] radix_val_15 [OF b(1,3)]]
  note defs = addUnit_def orZero_def emptyDuration_def Let_def
  have al: "isAlpha CHR ''Y''" "isAlpha CHR ''M''" "isAlpha CHR ''W''" "isAlpha CHR ''D''"
    "isAlpha CHR ''H''" "isAlpha CHR ''S''"
    by (simp_all add: isAlpha_def)
  have "addUnit False ''Y'' (radix_val 10 a) None emptyDuration pos
          = Inr (emptyDuration\<lparr>dur_years := Some (Finite (of_int (radix_val 10 a)))\<rparr>)" for pos
    using j(1) by (simp add: defs)
  moreover have "addUnit False ''Y'' (radix_val 10 b) None
            (emptyDuration\<lparr>dur_years := Some (Finite (of_int (radix_val 10 a)))\<rparr>) pos
          = Inr (emptyDuration
                  \<lparr>dur_years := Some (Finite (of_int (radix_val 10 a + radix_val 10 b)))\<rparr>)" for pos
    using j(2) by (simp add: defs)
  ultimately show "parseTemporal (''P'' @ a @ ''Y'' @ b @ ''Y'')
       = Inr (Value (Duration (emptyDuration
           \<lparr>dur_years := Some (Finite (of_int (radix_val 10 a + radix_val 10 b))),
            dur_raw := ''P'' @ a @ ''Y'' @ b @ ''Y''\<rparr>)))"
    using parse_date_pairs [OF a b al(1), of
        "emptyDuration\<lparr>dur_years := Some (Finite (of_int (radix_val 10 a)))\<rparr>"
        "emptyDuration\<lparr>dur_years := Some (Finite (of_int (radix_val 10 a + radix_val 10 b)))\<rparr>"]
    by (simp add: emptyDuration_def)
  have "addUnit False ''M'' (radix_val 10 a) None emptyDuration pos
          = Inr (emptyDuration\<lparr>dur_months := Some (Finite (of_int (radix_val 10 a)))\<rparr>)" for pos
    using j(1) by (simp add: defs)
  moreover have "addUnit False ''M'' (radix_val 10 b) None
            (emptyDuration\<lparr>dur_months := Some (Finite (of_int (radix_val 10 a)))\<rparr>) pos
          = Inr (emptyDuration
                  \<lparr>dur_months := Some (Finite (of_int (radix_val 10 a + radix_val 10 b)))\<rparr>)" for pos
    using j(2) by (simp add: defs)
  ultimately show "parseTemporal (''P'' @ a @ ''M'' @ b @ ''M'')
       = Inr (Value (Duration (emptyDuration
           \<lparr>dur_months := Some (Finite (of_int (radix_val 10 a + radix_val 10 b))),
            dur_raw := ''P'' @ a @ ''M'' @ b @ ''M''\<rparr>)))"
    using parse_date_pairs [OF a b al(2), of
        "emptyDuration\<lparr>dur_months := Some (Finite (of_int (radix_val 10 a)))\<rparr>"
        "emptyDuration\<lparr>dur_months := Some (Finite (of_int (radix_val 10 a + radix_val 10 b)))\<rparr>"]
    by (simp add: emptyDuration_def)
  have "addUnit False ''W'' (radix_val 10 a) None emptyDuration pos
          = Inr (emptyDuration\<lparr>dur_weeks := Some (Finite (of_int (radix_val 10 a)))\<rparr>)" for pos
    using j(1) by (simp add: defs)
  moreover have "addUnit False ''W'' (radix_val 10 b) None
            (emptyDuration\<lparr>dur_weeks := Some (Finite (of_int (radix_val 10 a)))\<rparr>) pos
          = Inr (emptyDuration
                  \<lparr>dur_weeks := Some (Finite (of_int (radix_val 10 a + radix_val 10 b)))\<rparr>)" for pos
    using j(2) by (simp add: defs)
  ultimately show "parseTemporal (''P'' @ a @ ''W'' @ b @ ''W'')
       = Inr (Value (Duration (emptyDuration
           \<lparr>dur_weeks := Some (Finite (of_int (radix_val 10 a + radix_val 10 b))),
            dur_raw := ''P'' @ a @ ''W'' @ b @ ''W''\<rparr>)))"
    using parse_date_pairs [OF a b al(3), of
        "emptyDuration\<lparr>dur_weeks := Some (Finite (of_int (radix_val 10 a)))\<rparr>"
        "emptyDuration\<lparr>dur_weeks := Some (Finite (of_int (radix_val 10 a + radix_val 10 b)))\<rparr>"]
    by (simp add: emptyDuration_def)
  have "addUnit False ''D'' (radix_val 10 a) None emptyDuration pos
          = Inr (emptyDuration\<lparr>dur_days := Some (Finite (of_int (radix_val 10 a)))\<rparr>)" for pos
    using j(1) by (simp add: defs)
  moreover have "addUnit False ''D'' (radix_val 10 b) None
            (emptyDuration\<lparr>dur_days := Some (Finite (of_int (radix_val 10 a)))\<rparr>) pos
          = Inr (emptyDuration
                  \<lparr>dur_days := Some (Finite (of_int (radix_val 10 a + radix_val 10 b)))\<rparr>)" for pos
    using j(2) by (simp add: defs)
  ultimately show "parseTemporal (''P'' @ a @ ''D'' @ b @ ''D'')
       = Inr (Value (Duration (emptyDuration
           \<lparr>dur_days := Some (Finite (of_int (radix_val 10 a + radix_val 10 b))),
            dur_raw := ''P'' @ a @ ''D'' @ b @ ''D''\<rparr>)))"
    using parse_date_pairs [OF a b al(4), of
        "emptyDuration\<lparr>dur_days := Some (Finite (of_int (radix_val 10 a)))\<rparr>"
        "emptyDuration\<lparr>dur_days := Some (Finite (of_int (radix_val 10 a + radix_val 10 b)))\<rparr>"]
    by (simp add: emptyDuration_def)
  have "addUnit True ''H'' (radix_val 10 a) None emptyDuration pos
          = Inr (emptyDuration\<lparr>dur_hours := Some (Finite (of_int (radix_val 10 a)))\<rparr>)" for pos
    using j(1) by (simp add: defs)
  moreover have "addUnit True ''H'' (radix_val 10 b) None
            (emptyDuration\<lparr>dur_hours := Some (Finite (of_int (radix_val 10 a)))\<rparr>) pos
          = Inr (emptyDuration
                  \<lparr>dur_hours := Some (Finite (of_int (radix_val 10 a + radix_val 10 b)))\<rparr>)" for pos
    using j(2) by (simp add: defs)
  ultimately show "parseTemporal (''PT'' @ a @ ''H'' @ b @ ''H'')
       = Inr (Value (Duration (emptyDuration
           \<lparr>dur_hours := Some (Finite (of_int (radix_val 10 a + radix_val 10 b))),
            dur_raw := ''PT'' @ a @ ''H'' @ b @ ''H''\<rparr>)))"
    using parse_time_pairs [OF a b al(5), of
        "emptyDuration\<lparr>dur_hours := Some (Finite (of_int (radix_val 10 a)))\<rparr>"
        "emptyDuration\<lparr>dur_hours := Some (Finite (of_int (radix_val 10 a + radix_val 10 b)))\<rparr>"]
    by (simp add: emptyDuration_def)
  have "addUnit True ''M'' (radix_val 10 a) None emptyDuration pos
          = Inr (emptyDuration\<lparr>dur_minutes := Some (Finite (of_int (radix_val 10 a)))\<rparr>)" for pos
    using j(1) by (simp add: defs)
  moreover have "addUnit True ''M'' (radix_val 10 b) None
            (emptyDuration\<lparr>dur_minutes := Some (Finite (of_int (radix_val 10 a)))\<rparr>) pos
          = Inr (emptyDuration
                  \<lparr>dur_minutes := Some (Finite (of_int (radix_val 10 a + radix_val 10 b)))\<rparr>)" for pos
    using j(2) by (simp add: defs)
  ultimately show "parseTemporal (''PT'' @ a @ ''M'' @ b @ ''M'')
       = Inr (Value (Duration (emptyDuration
           \<lparr>dur_minutes := Some (Finite (of_int (radix_val 10 a + radix_val 10 b))),
            dur_raw := ''PT'' @ a @ ''M'' @ b @ ''M''\<rparr>)))"
    using parse_time_pairs [OF a b al(2), of
        "emptyDuration\<lparr>dur_minutes := Some (Finite (of_int (radix_val 10 a)))\<rparr>"
        "emptyDuration\<lparr>dur_minutes := Some (Finite (of_int (radix_val 10 a + radix_val 10 b)))\<rparr>"]
    by (simp add: emptyDuration_def)
  have "addUnit True ''S'' (radix_val 10 a) None emptyDuration pos
          = Inr (emptyDuration\<lparr>dur_seconds := Some (Finite (of_int (radix_val 10 a)))\<rparr>)" for pos
    using j(1) by (simp add: defs)
  moreover have "addUnit True ''S'' (radix_val 10 b) None
            (emptyDuration\<lparr>dur_seconds := Some (Finite (of_int (radix_val 10 a)))\<rparr>) pos
          = Inr (emptyDuration
                  \<lparr>dur_seconds := Some (Finite (of_int (radix_val 10 a + radix_val 10 b)))\<rparr>)" for pos
    using j(2) by (simp add: defs)
  ultimately show "parseTemporal (''PT'' @ a @ ''S'' @ b @ ''S'')
       = Inr (Value (Duration (emptyDuration
           \<lparr>dur_seconds := Some (Finite (of_int (radix_val 10 a + radix_val 10 b))),
            dur_raw := ''PT'' @ a @ ''S'' @ b @ ''S''\<rparr>)))"
    using parse_time_pairs [OF a b al(6), of
        "emptyDuration\<lparr>dur_seconds := Some (Finite (of_int (radix_val 10 a)))\<rparr>"
        "emptyDuration\<lparr>dur_seconds := Some (Finite (of_int (radix_val 10 a + radix_val 10 b)))\<rparr>"]
    by (simp add: emptyDuration_def)
qed

text \<open>
  C7.  In a duration, a number and its unit add the number to the value that the field of
  the unit already has (0 when the field is absent); nothing is overwritten and no error is
  raised, for years, months, weeks and days before \<open>T\<close> and for hours, minutes and seconds
  after it.  The sum is the sum of the host: exact for numbers of at most fifteen digits,
  rounded beyond \<open>2^53\<close>.  One pass of the loop over a number token and a unit token does
  exactly this accumulation, and one pass over \<open>T\<close> switches to the time units.  For every
  two numbers \<open>a\<close> and \<open>b\<close> of at most fifteen digits and each of the seven units, the text
  with the two numbers, each followed by the unit, parses to the duration whose only field
  is that of the unit, with the value \<open>a + b\<close>.  So \<open>P1Y2Y\<close> has 3 years, \<open>PT1H2H3H\<close> has
  6 hours, and \<open>P9007199254740992Y1Y\<close> has \<open>9007199254740992\<close> years, the sum of the host.
\<close>

theorem duration_units_accumulate:
  "orZero None = Finite 0 \<and> orZero (Some v) = v
   \<and> addUnit False ''Y'' n fraction dur position
       = Inr (dur\<lparr>dur_years := Some (js_add (orZero (dur_years dur)) (Finite (of_int n)))\<rparr>)
   \<and> addUnit False ''M'' n fraction dur position
       = Inr (dur\<lparr>dur_months := Some (js_add (orZero (dur_months dur)) (Finite (of_int n)))\<rparr>)
   \<and> addUnit False ''W'' n fraction dur position
       = Inr (dur\<lparr>dur_weeks := Some (js_add (orZero (dur_weeks dur)) (Finite (of_int n)))\<rparr>)
   \<and> addUnit False ''D'' n fraction dur position
       = Inr (dur\<lparr>dur_days := Some (js_add (orZero (dur_days dur)) (Finite (of_int n)))\<rparr>)
   \<and> addUnit True ''H'' n fraction dur position
       = Inr (dur\<lparr>dur_hours := Some (js_add (orZero (dur_hours dur)) (Finite (of_int n)))\<rparr>)
   \<and> addUnit True ''M'' n fraction dur position
       = Inr (dur\<lparr>dur_minutes := Some (js_add (orZero (dur_minutes dur)) (Finite (of_int n)))\<rparr>)
   \<and> addUnit True ''S'' n None dur position
       = Inr (dur\<lparr>dur_seconds := Some (js_add (orZero (dur_seconds dur)) (Finite (of_int n)))\<rparr>)
   \<and> (\<exists>dur'. addUnit True ''S'' n fraction dur position = Inr dur'
         \<and> dur_seconds dur' = Some (js_add (orZero (dur_seconds dur)) (Finite (of_int n))))
   \<and> (0 \<le> x \<and> x < 10 ^ 15 \<and> 0 \<le> y \<and> y < 10 ^ 15 \<longrightarrow>
        js_add (Finite 0) (Finite (of_int x)) = Finite (of_int x)
        \<and> js_add (Finite (of_int x)) (Finite (of_int y)) = Finite (of_int (x + y)))
   \<and> (atTok p (Tok Number) \<and> atTok (advance p) (Tok Ident)
        \<and> toInt (any_value (peek p)) ''duration number'' (p_i p + 2) = Inr n
        \<and> addUnit inTime (any_value (peek (advance p))) n None dur (p_i p + 2) = Inr dur1
      \<longrightarrow> durationStep p inTime dur rawParts =
            Inr (Continue (advance (advance p), inTime, dur1,
                   rawParts @ [any_value (peek p), any_value (peek (advance p))])))
   \<and> (atTok p (Tok T) \<and> Suc (p_i p) < length (p_toks p)
      \<longrightarrow> durationStep p inTime dur rawParts =
            Inr (Continue (advance p, True, dur, rawParts @ [''T''])))
   \<and> (list_all isDigit a \<and> a \<noteq> [] \<and> length a \<le> 15
        \<and> list_all isDigit b \<and> b \<noteq> [] \<and> length b \<le> 15 \<longrightarrow>
        parseTemporal (''P'' @ a @ ''Y'' @ b @ ''Y'')
          = Inr (Value (Duration (emptyDuration
              \<lparr>dur_years := Some (Finite (of_int (radix_val 10 a + radix_val 10 b))),
               dur_raw := ''P'' @ a @ ''Y'' @ b @ ''Y''\<rparr>)))
        \<and> parseTemporal (''P'' @ a @ ''M'' @ b @ ''M'')
          = Inr (Value (Duration (emptyDuration
              \<lparr>dur_months := Some (Finite (of_int (radix_val 10 a + radix_val 10 b))),
               dur_raw := ''P'' @ a @ ''M'' @ b @ ''M''\<rparr>)))
        \<and> parseTemporal (''P'' @ a @ ''W'' @ b @ ''W'')
          = Inr (Value (Duration (emptyDuration
              \<lparr>dur_weeks := Some (Finite (of_int (radix_val 10 a + radix_val 10 b))),
               dur_raw := ''P'' @ a @ ''W'' @ b @ ''W''\<rparr>)))
        \<and> parseTemporal (''P'' @ a @ ''D'' @ b @ ''D'')
          = Inr (Value (Duration (emptyDuration
              \<lparr>dur_days := Some (Finite (of_int (radix_val 10 a + radix_val 10 b))),
               dur_raw := ''P'' @ a @ ''D'' @ b @ ''D''\<rparr>)))
        \<and> parseTemporal (''PT'' @ a @ ''H'' @ b @ ''H'')
          = Inr (Value (Duration (emptyDuration
              \<lparr>dur_hours := Some (Finite (of_int (radix_val 10 a + radix_val 10 b))),
               dur_raw := ''PT'' @ a @ ''H'' @ b @ ''H''\<rparr>)))
        \<and> parseTemporal (''PT'' @ a @ ''M'' @ b @ ''M'')
          = Inr (Value (Duration (emptyDuration
              \<lparr>dur_minutes := Some (Finite (of_int (radix_val 10 a + radix_val 10 b))),
               dur_raw := ''PT'' @ a @ ''M'' @ b @ ''M''\<rparr>)))
        \<and> parseTemporal (''PT'' @ a @ ''S'' @ b @ ''S'')
          = Inr (Value (Duration (emptyDuration
              \<lparr>dur_seconds := Some (Finite (of_int (radix_val 10 a + radix_val 10 b))),
               dur_raw := ''PT'' @ a @ ''S'' @ b @ ''S''\<rparr>))))
   \<and> parseTemporal ''P1Y2Y''
       = Inr (Value (Duration
           \<lparr>dur_years = Some (Finite 3), dur_months = None, dur_weeks = None, dur_days = None,
            dur_hours = None, dur_minutes = None, dur_seconds = None,
            dur_secondsFraction = None, dur_raw = ''P1Y2Y'', dur_annotations = []\<rparr>))
   \<and> parseTemporal ''PT1H2H3H''
       = Inr (Value (Duration
           \<lparr>dur_years = None, dur_months = None, dur_weeks = None, dur_days = None,
            dur_hours = Some (Finite 6), dur_minutes = None, dur_seconds = None,
            dur_secondsFraction = None, dur_raw = ''PT1H2H3H'', dur_annotations = []\<rparr>))
   \<and> parseTemporal ''P1M2DT3M4S5M6S''
       = Inr (Value (Duration
           \<lparr>dur_years = None, dur_months = Some (Finite 1), dur_weeks = None,
            dur_days = Some (Finite 2), dur_hours = None, dur_minutes = Some (Finite 8),
            dur_seconds = Some (Finite 10), dur_secondsFraction = None,
            dur_raw = ''P1M2DT3M4S5M6S'', dur_annotations = []\<rparr>))
   \<and> parseTemporal ''P9007199254740992Y1Y''
       = Inr (Value (Duration
           \<lparr>dur_years = Some (Finite 9007199254740992), dur_months = None, dur_weeks = None,
            dur_days = None, dur_hours = None, dur_minutes = None, dur_seconds = None,
            dur_secondsFraction = None, dur_raw = ''P9007199254740992Y1Y'',
            dur_annotations = []\<rparr>))"
proof -
  have 1: "orZero None = Finite 0 \<and> orZero (Some v) = v" by (simp add: orZero_def)
  have 2: "addUnit False ''Y'' n fraction dur position
       = Inr (dur\<lparr>dur_years := Some (js_add (orZero (dur_years dur)) (Finite (of_int n)))\<rparr>)"
    "addUnit False ''M'' n fraction dur position
       = Inr (dur\<lparr>dur_months := Some (js_add (orZero (dur_months dur)) (Finite (of_int n)))\<rparr>)"
    "addUnit False ''W'' n fraction dur position
       = Inr (dur\<lparr>dur_weeks := Some (js_add (orZero (dur_weeks dur)) (Finite (of_int n)))\<rparr>)"
    "addUnit False ''D'' n fraction dur position
       = Inr (dur\<lparr>dur_days := Some (js_add (orZero (dur_days dur)) (Finite (of_int n)))\<rparr>)"
    "addUnit True ''H'' n fraction dur position
       = Inr (dur\<lparr>dur_hours := Some (js_add (orZero (dur_hours dur)) (Finite (of_int n)))\<rparr>)"
    "addUnit True ''M'' n fraction dur position
       = Inr (dur\<lparr>dur_minutes := Some (js_add (orZero (dur_minutes dur)) (Finite (of_int n)))\<rparr>)"
    "addUnit True ''S'' n None dur position
       = Inr (dur\<lparr>dur_seconds := Some (js_add (orZero (dur_seconds dur)) (Finite (of_int n)))\<rparr>)"
    by (simp_all add: addUnit_def Let_def)
  have 3: "\<exists>dur'. addUnit True ''S'' n fraction dur position = Inr dur'
         \<and> dur_seconds dur' = Some (js_add (orZero (dur_seconds dur)) (Finite (of_int n)))"
    by (simp add: addUnit_def Let_def)
  note 4 = js_add_small [of x y]
  note 5 = durationStep_number_unit [of p n inTime dur dur1 rawParts]
  note 6 = durationStep_T [of p inTime dur rawParts]
  note 7 = two_pairs_accumulate [of a b]
  have 8: "parseTemporal ''P1Y2Y''
       = Inr (Value (Duration
           \<lparr>dur_years = Some (Finite 3), dur_months = None, dur_weeks = None, dur_days = None,
            dur_hours = None, dur_minutes = None, dur_seconds = None,
            dur_secondsFraction = None, dur_raw = ''P1Y2Y'', dur_annotations = []\<rparr>))"
    by (simp add: parse_eval)
  have 9: "parseTemporal ''PT1H2H3H''
       = Inr (Value (Duration
           \<lparr>dur_years = None, dur_months = None, dur_weeks = None, dur_days = None,
            dur_hours = Some (Finite 6), dur_minutes = None, dur_seconds = None,
            dur_secondsFraction = None, dur_raw = ''PT1H2H3H'', dur_annotations = []\<rparr>))"
    by (simp add: parse_eval)
  have 10: "parseTemporal ''P1M2DT3M4S5M6S''
       = Inr (Value (Duration
           \<lparr>dur_years = None, dur_months = Some (Finite 1), dur_weeks = None,
            dur_days = Some (Finite 2), dur_hours = None, dur_minutes = Some (Finite 8),
            dur_seconds = Some (Finite 10), dur_secondsFraction = None,
            dur_raw = ''P1M2DT3M4S5M6S'', dur_annotations = []\<rparr>))"
    by (simp add: parse_eval)
  have 11: "parseTemporal ''P9007199254740992Y1Y''
       = Inr (Value (Duration
           \<lparr>dur_years = Some (Finite 9007199254740992), dur_months = None, dur_weeks = None,
            dur_days = None, dur_hours = None, dur_minutes = None, dur_seconds = None,
            dur_secondsFraction = None, dur_raw = ''P9007199254740992Y1Y'',
            dur_annotations = []\<rparr>))"
    by (simp add: parse_eval toInt_safe_bound to_double_safe_bound to_double_above_safe)
  from 1 2 3 4 5 6 7 8 9 10 11 show ?thesis by blast
qed

theorem duration_units_accumulate_witness:
  "parseTemporal ''PT12M30M''
     = Inr (Value (Duration
         \<lparr>dur_years = None, dur_months = None, dur_weeks = None, dur_days = None,
          dur_hours = None, dur_minutes = Some (Finite 42), dur_seconds = None,
          dur_secondsFraction = None, dur_raw = ''PT12M30M'', dur_annotations = []\<rparr>))
   \<and> parseTemporal ''P12M30M''
     = Inr (Value (Duration
         \<lparr>dur_years = None, dur_months = Some (Finite 42), dur_weeks = None, dur_days = None,
          dur_hours = None, dur_minutes = None, dur_seconds = None,
          dur_secondsFraction = None, dur_raw = ''P12M30M'', dur_annotations = []\<rparr>))
   \<and> durationStep
     \<lparr>p_toks = [Plain \<lparr>tok_type = Number, tok_value = ''2'', tok_start = 3, tok_end = 4\<rparr>,
                 Plain \<lparr>tok_type = Ident, tok_value = ''Y'', tok_start = 4, tok_end = 5\<rparr>,
                 Plain \<lparr>tok_type = EOF, tok_value = [], tok_start = 5, tok_end = 5\<rparr>],
      p_i = 0\<rparr>
     False (emptyDuration\<lparr>dur_years := Some (Finite 1)\<rparr>) [''P'', ''1'', ''Y'']
   = Inr (Continue
       (\<lparr>p_toks = [Plain \<lparr>tok_type = Number, tok_value = ''2'', tok_start = 3, tok_end = 4\<rparr>,
                   Plain \<lparr>tok_type = Ident, tok_value = ''Y'', tok_start = 4, tok_end = 5\<rparr>,
                   Plain \<lparr>tok_type = EOF, tok_value = [], tok_start = 5, tok_end = 5\<rparr>],
         p_i = 2\<rparr>,
        False, emptyDuration\<lparr>dur_years := Some (Finite 3)\<rparr>, [''P'', ''1'', ''Y'', ''2'', ''Y'']))"
proof -
  let ?p = "\<lparr>p_toks = [Plain \<lparr>tok_type = Number, tok_value = ''2'', tok_start = 3, tok_end = 4\<rparr>,
                 Plain \<lparr>tok_type = Ident, tok_value = ''Y'', tok_start = 4, tok_end = 5\<rparr>,
                 Plain \<lparr>tok_type = EOF, tok_value = [], tok_start = 5, tok_end = 5\<rparr>],
      p_i = 0\<rparr>"
  have h: "atTok ?p (Tok Number)" "atTok (advance ?p) (Tok Ident)"
    "toInt (any_value (peek ?p)) ''duration number'' (p_i ?p + 2) = Inr 2"
    "addUnit False (any_value (peek (advance ?p))) 2 None (emptyDuration\<lparr>dur_years := Some (Finite 1)\<rparr>)
       (p_i ?p + 2) = Inr (emptyDuration\<lparr>dur_years := Some (Finite 3)\<rparr>)"
    by (simp_all add: atTok_def peek_def advance_def toInt_numeral isDigit_def radix_val_def
        digit_val_def addUnit_def orZero_def emptyDuration_def)
  have d: "list_all isDigit ''12''" "list_all isDigit ''30''"
    "radix_val 10 ''12'' = 12" "radix_val 10 ''30'' = 30"
    by (simp_all add: isDigit_def radix_val_def digit_val_def)
  from duration_units_accumulate [where p = ?p and n = 2 and inTime = False
      and dur = "emptyDuration\<lparr>dur_years := Some (Finite 1)\<rparr>"
      and ?dur1.0 = "emptyDuration\<lparr>dur_years := Some (Finite 3)\<rparr>" and rawParts = "[''P'', ''1'', ''Y'']"
      and a = "''12''" and b = "''30''"] h d
  show ?thesis by (simp add: advance_def peek_def emptyDuration_def)
qed

end
